theory Spec2Isabelle
  imports Complex_Main
begin

section \<open>Strings and characters\<close>

text \<open>
  A JavaScript string is a sequence of UTF-16 code units. The model covers the strings
  whose code units are below 256: a \<^typ>\<open>char\<close> is the code unit, a \<^typ>\<open>string\<close> the
  sequence. The character classes below are the ECMAScript ones within that range.
\<close>

text \<open>Line terminators: \<open>\n\<close> and \<open>\r\<close>.\<close>

definition isLineTerminator :: "char \<Rightarrow> bool" where
  "isLineTerminator c = (c = CHR 0x0A \<or> c = CHR 0x0D)"

text \<open>White space, as \<open>\s\<close> and \<open>trim\<close> see it: tab, the line terminators, vertical tab,
  form feed, space and the no-break space.\<close>

definition isWhiteSpace :: "char \<Rightarrow> bool" where
  "isWhiteSpace c =
     (c \<in> set [CHR 0x09, CHR 0x0A, CHR 0x0B, CHR 0x0C, CHR 0x0D, CHR 0x20, CHR 0xA0])"

definition isDigit :: "char \<Rightarrow> bool" where
  "isDigit c = (c \<in> set ''0123456789'')"

text \<open>Word characters, as \<open>\b\<close> sees them: \<open>[A-Za-z0-9_]\<close>.\<close>

definition isWordChar :: "char \<Rightarrow> bool" where
  "isWordChar c =
     (c \<in> set ''abcdefghijklmnopqrstuvwxyzABCDEFGHIJKLMNOPQRSTUVWXYZ0123456789_'')"

text \<open>
  The letters of the upper half that have a case pair within the range: 0xE0 to 0xFE (the
  division sign 0xF7 apart) are the lower-case forms of 0xC0 to 0xDE (the multiplication
  sign 0xD7 apart).
\<close>

definition latin1_lower :: string where
  "latin1_lower =
     [CHR 0xE0, CHR 0xE1, CHR 0xE2, CHR 0xE3, CHR 0xE4, CHR 0xE5, CHR 0xE6, CHR 0xE7,
      CHR 0xE8, CHR 0xE9, CHR 0xEA, CHR 0xEB, CHR 0xEC, CHR 0xED, CHR 0xEE, CHR 0xEF,
      CHR 0xF0, CHR 0xF1, CHR 0xF2, CHR 0xF3, CHR 0xF4, CHR 0xF5, CHR 0xF6, CHR 0xF8,
      CHR 0xF9, CHR 0xFA, CHR 0xFB, CHR 0xFC, CHR 0xFD, CHR 0xFE]"

definition latin1_upper :: string where
  "latin1_upper =
     [CHR 0xC0, CHR 0xC1, CHR 0xC2, CHR 0xC3, CHR 0xC4, CHR 0xC5, CHR 0xC6, CHR 0xC7,
      CHR 0xC8, CHR 0xC9, CHR 0xCA, CHR 0xCB, CHR 0xCC, CHR 0xCD, CHR 0xCE, CHR 0xCF,
      CHR 0xD0, CHR 0xD1, CHR 0xD2, CHR 0xD3, CHR 0xD4, CHR 0xD5, CHR 0xD6, CHR 0xD8,
      CHR 0xD9, CHR 0xDA, CHR 0xDB, CHR 0xDC, CHR 0xDD, CHR 0xDE]"

text \<open>
  The case folding of an \<open>i\<close>-flagged regular expression (\<open>Canonicalize\<close>) upper-cases a
  code unit when the upper-case form is one code unit, and never maps a code unit from 128 up
  to one below 128. The sharp s (0xDF, upper-case form \<open>SS\<close>) folds to itself; the micro sign
  (0xB5) and the y with diaeresis (0xFF) fold to code units from 256 up that no other code
  unit of the range folds to, so within the range they compare as if they folded to
  themselves.
\<close>

definition canonicalize :: "char \<Rightarrow> char" where
  "canonicalize c =
     (case map_of (zip (''abcdefghijklmnopqrstuvwxyz'' @ latin1_lower)
                       (''ABCDEFGHIJKLMNOPQRSTUVWXYZ'' @ latin1_upper)) c of
        None \<Rightarrow> c
      | Some u \<Rightarrow> u)"

text \<open>\<open>String.prototype.toLowerCase\<close>: A to Z, and in the upper half the letters from
  0xC0 to 0xDE (0xD7, the multiplication sign, apart).\<close>

definition toLowerCase_char :: "char \<Rightarrow> char" where
  "toLowerCase_char c =
     (case map_of (zip (''ABCDEFGHIJKLMNOPQRSTUVWXYZ'' @ latin1_upper)
                       (''abcdefghijklmnopqrstuvwxyz'' @ latin1_lower)) c of
        Some l \<Rightarrow> l
      | None \<Rightarrow> c)"

definition toLowerCase :: "string \<Rightarrow> string" where
  "toLowerCase s = map toLowerCase_char s"

text \<open>\<open>String.prototype.toUpperCase\<close>: the sharp s becomes \<open>SS\<close>; the result is
  \<open>None\<close> when it has a code unit from 256 up (the micro sign, the y with diaeresis).\<close>

definition toUpperCase_char :: "char \<Rightarrow> string option" where
  "toUpperCase_char c =
     (if c = CHR 0xDF then Some ''SS''
      else if c = CHR 0xB5 \<or> c = CHR 0xFF then None
      else Some [canonicalize c])"

fun toUpperCase :: "string \<Rightarrow> string option" where
  "toUpperCase [] = Some []"
| "toUpperCase (c # cs) =
     (case toUpperCase_char c of
        None \<Rightarrow> None
      | Some u \<Rightarrow> map_option (\<lambda>r. u @ r) (toUpperCase cs))"

definition trim :: "string \<Rightarrow> string" where
  "trim s = rev (dropWhile isWhiteSpace (rev (dropWhile isWhiteSpace s)))"

definition substring :: "string \<Rightarrow> nat \<Rightarrow> nat \<Rightarrow> string" where
  "substring s b e = take (e - b) (drop b s)"

text \<open>\<open>Array.prototype.join\<close> on an array of strings.\<close>

fun js_join :: "string \<Rightarrow> string list \<Rightarrow> string" where
  "js_join sep [] = []"
| "js_join sep [x] = x"
| "js_join sep (x # y # ys) = x @ sep @ js_join sep (y # ys)"

text \<open>\<open>Array.from(new Set(xs))\<close>: the distinct elements in the order of their first
  occurrence.\<close>

definition set_add :: "'a list \<Rightarrow> 'a \<Rightarrow> 'a list" where
  "set_add acc x = (if x \<in> set acc then acc else acc @ [x])"

definition from_Set :: "'a list \<Rightarrow> 'a list" where
  "from_Set xs = foldl set_add [] xs"

section \<open>Regular expressions\<close>

text \<open>
  The regular expressions of the program, with the backtracking semantics of ECMAScript:
  \<open>rmatch fl s r i\<close> lists the positions where a match of \<open>r\<close> that starts at position
  \<open>i\<close> of \<open>s\<close> can end, in the order in which the backtracking matcher tries them. The
  first one is the match that \<open>exec\<close> reports.
\<close>

record flags =
  ignoreCase :: bool
  multiline :: bool

definition g :: flags where
  "g = \<lparr>ignoreCase = False, multiline = False\<rparr>"

definition gi :: flags where
  "gi = \<lparr>ignoreCase = True, multiline = False\<rparr>"

definition gm :: flags where
  "gm = \<lparr>ignoreCase = False, multiline = True\<rparr>"

datatype cls = Digit | Space | Dot | AnyOf string

datatype rx =
    Lit string
  | In cls
  | NotIn cls
  | Bol
  | Eol
  | WordB
  | Seq rx rx
  | Alt rx rx
  | Star rx
  | Lazy rx

text \<open>\<open>r?\<close>, \<open>r+\<close> and \<open>r{n,}\<close> (all greedy), and the n-ary sequence and alternative.\<close>

definition Opt :: "rx \<Rightarrow> rx" where
  "Opt r = Alt r (Lit [])"

definition Plus :: "rx \<Rightarrow> rx" where
  "Plus r = Seq r (Star r)"

fun AtLeast :: "nat \<Rightarrow> rx \<Rightarrow> rx" where
  "AtLeast 0 r = Star r"
| "AtLeast (Suc n) r = Seq r (AtLeast n r)"

fun Alts :: "rx list \<Rightarrow> rx" where
  "Alts [] = Lit []"
| "Alts [r] = r"
| "Alts (r # rs) = Alt r (Alts rs)"

fun Seqs :: "rx list \<Rightarrow> rx" where
  "Seqs [] = Lit []"
| "Seqs [r] = r"
| "Seqs (r # rs) = Seq r (Seqs rs)"

definition ceq :: "flags \<Rightarrow> char \<Rightarrow> char \<Rightarrow> bool" where
  "ceq fl c p = (if ignoreCase fl then canonicalize c = canonicalize p else c = p)"

fun cls_mem :: "flags \<Rightarrow> cls \<Rightarrow> char \<Rightarrow> bool" where
  "cls_mem fl Digit c = isDigit c"
| "cls_mem fl Space c = isWhiteSpace c"
| "cls_mem fl Dot c = (\<not> isLineTerminator c)"
| "cls_mem fl (AnyOf ps) c = list_ex (ceq fl c) ps"

definition lit_at :: "flags \<Rightarrow> string \<Rightarrow> string \<Rightarrow> nat \<Rightarrow> bool" where
  "lit_at fl w s i = list_all2 (ceq fl) (take (length w) (drop i s)) w"

text \<open>\<open>^\<close> and \<open>$\<close>: the ends of the input, and with the \<open>m\<close> flag the ends of a line.\<close>

definition at_bol :: "flags \<Rightarrow> string \<Rightarrow> nat \<Rightarrow> bool" where
  "at_bol fl s i = (i = 0 \<or> (multiline fl \<and> i \<le> length s \<and> isLineTerminator (s ! (i - 1))))"

definition at_eol :: "flags \<Rightarrow> string \<Rightarrow> nat \<Rightarrow> bool" where
  "at_eol fl s i = (i = length s \<or> (multiline fl \<and> i < length s \<and> isLineTerminator (s ! i)))"

definition word_at :: "string \<Rightarrow> nat \<Rightarrow> bool" where
  "word_at s i = (i < length s \<and> isWordChar (s ! i))"

definition at_wordb :: "string \<Rightarrow> nat \<Rightarrow> bool" where
  "at_wordb s i = ((0 < i \<and> word_at s (i - 1)) \<noteq> word_at s i)"

text \<open>An iteration of \<open>*\<close> that consumes nothing is rejected, as in ECMAScript.\<close>

function rmatch :: "flags \<Rightarrow> string \<Rightarrow> rx \<Rightarrow> nat \<Rightarrow> nat list" where
  "rmatch fl s (Lit w) i = (if lit_at fl w s i then [i + length w] else [])"
| "rmatch fl s (In c) i = (if i < length s \<and> cls_mem fl c (s ! i) then [Suc i] else [])"
| "rmatch fl s (NotIn c) i = (if i < length s \<and> \<not> cls_mem fl c (s ! i) then [Suc i] else [])"
| "rmatch fl s Bol i = (if at_bol fl s i then [i] else [])"
| "rmatch fl s Eol i = (if at_eol fl s i then [i] else [])"
| "rmatch fl s WordB i = (if at_wordb s i then [i] else [])"
| "rmatch fl s (Seq a b) i = concat (map (rmatch fl s b) (rmatch fl s a i))"
| "rmatch fl s (Alt a b) i = rmatch fl s a i @ rmatch fl s b i"
| "rmatch fl s (Star a) i =
     concat (map (rmatch fl s (Star a))
       (filter (\<lambda>j. i < j \<and> j \<le> length s) (rmatch fl s a i))) @ [i]"
| "rmatch fl s (Lazy a) i =
     i # concat (map (rmatch fl s (Lazy a))
       (filter (\<lambda>j. i < j \<and> j \<le> length s) (rmatch fl s a i)))"
  by pat_completeness auto
termination
  by (relation "(\<lambda>(fl, s, r, i). size r) <*mlex*> measure (\<lambda>(fl, s, r, i). length s - i)")
     (auto simp: wf_mlex mlex_less mlex_leq)

declare rmatch.simps(9,10) [simp del]

lemma rmatch_bounds:
  "i \<le> length s \<Longrightarrow> j \<in> set (rmatch fl s r i) \<Longrightarrow> i \<le> j \<and> j \<le> length s"
proof (induction fl s r i arbitrary: j rule: rmatch.induct)
  case (1 fl s w i)
  then show ?case
    by (auto simp: lit_at_def split: if_splits dest!: list_all2_lengthD)
next
  case (7 fl s a b i)
  from "7.prems"(2) obtain k where k: "k \<in> set (rmatch fl s a i)" "j \<in> set (rmatch fl s b k)"
    by auto
  from "7.IH"(1) [OF "7.prems"(1) k(1)] have "i \<le> k" "k \<le> length s" by auto
  with "7.IH"(2) [OF k(1) _ k(2)] show ?case by auto
next
  case (9 fl s a i)
  from "9.prems"(2) have "j \<in> set (concat (map (rmatch fl s (Star a))
      (filter (\<lambda>j. i < j \<and> j \<le> length s) (rmatch fl s a i))) @ [i])"
    by (subst (asm) rmatch.simps(9))
  then consider "j = i"
    | k where "i < k" "k \<le> length s" "j \<in> set (rmatch fl s (Star a) k)"
      "k \<in> set (rmatch fl s a i)"
    by auto
  then show ?case
  proof cases
    case 1
    with "9.prems" show ?thesis by simp
  next
    case 2
    with "9.IH"(2) [of k j] show ?thesis by auto
  qed
next
  case (10 fl s a i)
  from "10.prems"(2) have "j \<in> set (i # concat (map (rmatch fl s (Lazy a))
      (filter (\<lambda>j. i < j \<and> j \<le> length s) (rmatch fl s a i))))"
    by (subst (asm) rmatch.simps(10))
  then consider "j = i"
    | k where "i < k" "k \<le> length s" "j \<in> set (rmatch fl s (Lazy a) k)"
      "k \<in> set (rmatch fl s a i)"
    by auto
  then show ?case
  proof cases
    case 1
    with "10.prems" show ?thesis by simp
  next
    case 2
    with "10.IH"(2) [of k j] show ?thesis by auto
  qed
qed (auto split: if_splits)

text \<open>\<open>RegExp.prototype.exec\<close> at a fixed start index: the end of the first match in
  priority order, if there is one.\<close>

definition exec_at :: "flags \<Rightarrow> rx \<Rightarrow> string \<Rightarrow> nat \<Rightarrow> nat option" where
  "exec_at fl r s q = (case rmatch fl s r q of [] \<Rightarrow> None | e # _ \<Rightarrow> Some e)"

lemma exec_at_bounds:
  "q \<le> length s \<Longrightarrow> exec_at fl r s q = Some e \<Longrightarrow> q \<le> e \<and> e \<le> length s"
  using rmatch_bounds [of q s e fl r] by (auto simp: exec_at_def split: list.splits)

text \<open>The matches of a global (\<open>g\<close>) regular expression, as pairs of start and end: the
  search goes on from the end of the last match, one further after an empty match.\<close>

function scan :: "flags \<Rightarrow> rx \<Rightarrow> string \<Rightarrow> nat \<Rightarrow> (nat \<times> nat) list" where
  "scan fl r s q =
     (if length s < q then []
      else case exec_at fl r s q of
             None \<Rightarrow> scan fl r s (Suc q)
           | Some e \<Rightarrow> (q, e) # scan fl r s (if e = q then Suc q else e))"
  by pat_completeness auto
termination
proof (relation "measure (\<lambda>(fl, r, s, q). Suc (length s) - q)", goal_cases)
  case (3 fl r s q e)
  then have "q \<le> e \<and> e \<le> length s"
    by (intro exec_at_bounds [of q s fl r e]) auto
  with 3 show ?case by auto
qed auto

declare scan.simps [simp del]

text \<open>\<open>s.match(re) || []\<close> for a global \<open>re\<close>: the matched substrings.\<close>

definition js_match :: "flags \<Rightarrow> rx \<Rightarrow> string \<Rightarrow> string list" where
  "js_match fl r s = map (\<lambda>(b, e). substring s b e) (scan fl r s 0)"

text \<open>\<open>s.replace(re, rep)\<close> for a global \<open>re\<close> and a replacement text without \<open>$\<close>.\<close>

fun replace_matches :: "string \<Rightarrow> string \<Rightarrow> nat \<Rightarrow> (nat \<times> nat) list \<Rightarrow> string" where
  "replace_matches s rep p [] = drop p s"
| "replace_matches s rep p ((b, e) # ms) =
     (if p \<le> b then substring s p b @ rep @ replace_matches s rep e ms else replace_matches s rep p ms)"

definition js_replace :: "flags \<Rightarrow> rx \<Rightarrow> string \<Rightarrow> string \<Rightarrow> string" where
  "js_replace fl r rep s = replace_matches s rep 0 (scan fl r s 0)"

text \<open>\<open>s.split(re)\<close>.\<close>

function split_loop :: "flags \<Rightarrow> rx \<Rightarrow> string \<Rightarrow> nat \<Rightarrow> nat \<Rightarrow> string list" where
  "split_loop fl r s p q =
     (if length s \<le> q then [drop p s]
      else case exec_at fl r s q of
             None \<Rightarrow> split_loop fl r s p (Suc q)
           | Some e \<Rightarrow>
               if e = p then split_loop fl r s p (Suc q)
               else substring s p q # split_loop fl r s e e)"
  by pat_completeness auto
termination
proof (relation "(\<lambda>(fl, r, s, p, q). length s - q) <*mlex*>
    measure (\<lambda>(fl, r, s, p, q). if p = q then 0 else (1::nat))", goal_cases)
  case 1
  show ?case by (simp add: wf_mlex)
next
  case (2 fl r s p q)
  then show ?case by (auto intro: mlex_less)
next
  case (3 fl r s p q e)
  then show ?case by (auto intro: mlex_less)
next
  case (4 fl r s p q e)
  then have "q \<le> e \<and> e \<le> length s"
    by (intro exec_at_bounds [of q s fl r e]) auto
  with 4 show ?case by (cases "e = q") (auto intro: mlex_less mlex_leq)
qed

declare split_loop.simps [simp del]

definition js_split :: "flags \<Rightarrow> rx \<Rightarrow> string \<Rightarrow> string list" where
  "js_split fl r s =
     (if s = [] then (if exec_at fl r s 0 = None then [s] else [])
      else split_loop fl r s 0 0)"

section \<open>The content normalizer (src/lib/text-cleaner.ts)\<close>

text \<open>The regular expressions of \<open>cleanSubstackContent\<close>, in the order of the source.\<close>

definition htmlTag :: rx where
  "htmlTag = Seqs [Lit ''<'', Star (NotIn (AnyOf ''>'')), Lit ''>'']"

definition substackElements :: rx where
  "substackElements =
     Alts [Lit ''Subscribe now'', Lit ''View in browser'', Lit ''Share this post'',
           Lit ''Leave a comment'']"

definition paidOnly :: rx where
  "paidOnly = Lit ''Paid subscribers only''"

definition subscriberOnly :: rx where
  "subscriberOnly = Lit ''This is a subscriber-only post''"

definition newsletterBy :: rx where
  "newsletterBy =
     Seqs [Bol, Lazy (In Dot), Lit ''Newsletter by'', Lazy (In Dot), Lit [CHR 0x0A]]"

definition subscribeTo :: rx where
  "subscribeTo = Seqs [Lit ''Subscribe to'', Lazy (In Dot), Eol]"

definition unsubscribe :: rx where
  "unsubscribe = Seqs [Lit ''Unsubscribe'', Lazy (In Dot), Eol]"

definition url :: rx where
  "url = Seqs [Lit ''http'', Opt (Lit ''s''), Lit ''://'', Plus (NotIn Space)]"

definition newlines3 :: rx where
  "newlines3 = AtLeast 3 (Lit [CHR 0x0A])"

definition spaces2 :: rx where
  "spaces2 = AtLeast 2 (In Space)"

definition substackCTAs :: rx where
  "substackCTAs = Alts [Lit ''Sign up now'', Lit ''Start your free trial'', Lit ''Upgrade to paid'']"

definition shareCommentLike :: rx where
  "shareCommentLike = Alts [Lit ''Share'', Lit ''Comment'', Lit ''Like'']"

definition cleanSubstackContent :: "string \<Rightarrow> string" where
  "cleanSubstackContent content =
     (let cleaned = js_replace g htmlTag [] content;
          cleaned = js_replace gi substackElements [] cleaned;
          cleaned = js_replace gi paidOnly [] cleaned;
          cleaned = js_replace gi subscriberOnly [] cleaned;
          cleaned = js_replace gm newsletterBy [] cleaned;
          cleaned = js_replace gm subscribeTo [] cleaned;
          cleaned = js_replace gm unsubscribe [] cleaned;
          cleaned = js_replace g url [] cleaned;
          cleaned = js_replace g newlines3 [CHR 0x0A, CHR 0x0A] cleaned;
          cleaned = js_replace g spaces2 '' '' cleaned;
          cleaned = js_replace gi substackCTAs [] cleaned;
          cleaned = js_replace gi shareCommentLike [] cleaned;
          cleaned = trim cleaned
      in cleaned)"


section \<open>The data model (src/types)\<close>

text \<open>
  Values that come from outside the type checker (a parsed JSON document: the request body,
  the model's answer) are JavaScript values. A number is the double that \<open>JSON.parse\<close>
  produced, as the rational it is: a numeral too small for a double is 0 here as there. The
  infinities and NaN, which no JSON text denotes, are left out.
\<close>

datatype json =
    JUndefined
  | JNull
  | JBool bool
  | JNum rat
  | JStr string
  | JArr "json list"
  | JObj "(string \<times> json) list"

datatype error = TypeError | ApiError | FeedError | IOError

text \<open>Truthiness, and \<open>a || b\<close>.\<close>

fun truthy :: "json \<Rightarrow> bool" where
  "truthy JUndefined = False"
| "truthy JNull = False"
| "truthy (JBool b) = b"
| "truthy (JNum n) = (n \<noteq> 0)"
| "truthy (JStr s) = (s \<noteq> [])"
| "truthy (JArr xs) = True"
| "truthy (JObj kvs) = True"

definition js_or :: "json \<Rightarrow> json \<Rightarrow> json" where
  "js_or a b = (if truthy a then a else b)"

text \<open>\<open>a || b\<close> where \<open>a\<close> is a string or undefined.\<close>

definition str_or :: "string option \<Rightarrow> string \<Rightarrow> string" where
  "str_or a b = (case a of None \<Rightarrow> b | Some s \<Rightarrow> if s = [] then b else s)"

text \<open>
  Reading a property of a parsed JSON value: a TypeError on null and undefined, the member
  of an object (the last one, where a key is repeated), and undefined on every other value
  for the property names the program reads.
\<close>

fun get_prop :: "json \<Rightarrow> string \<Rightarrow> error + json" where
  "get_prop JUndefined k = Inl TypeError"
| "get_prop JNull k = Inl TypeError"
| "get_prop (JObj kvs) k = Inr (case map_of (rev kvs) k of None \<Rightarrow> JUndefined | Some v \<Rightarrow> v)"
| "get_prop v k = Inr JUndefined"

record Influencer =
  inf_id :: string
  name :: string
  slug :: string
  substackUrl :: string
  rssUrl :: string
  description :: json
  lastAnalyzed :: "string option"
  postCount :: "nat option"

record Post =
  post_id :: string
  title :: string
  content :: string
  cleanContent :: string
  pubDate :: string
  link :: string
  author :: "string option"
  categories :: "string list option"

record Positioning =
  archetype :: json
  authority :: json
  relatability :: json
  expertise :: json
  pos_description :: json

record Tone =
  primary :: json
  secondary :: json
  emotionalRange :: json

record BrandProfile =
  positioning :: Positioning
  tone :: Tone
  uniqueValue :: json

datatype complexity = Simple | Moderate | Complex

record EmotionalTone =
  positive :: int
  negative :: int
  neutral :: int

record LanguagePatterns =
  commonPhrases :: "string list"
  vocabularyComplexity :: complexity
  sentenceStructure :: string
  rhetoricalDevices :: "string list"
  powerWords :: "string list"
  emotionalTone :: EmotionalTone

datatype impact_level = Low | Medium | High

record PsychologicalTrigger =
  trigger_type :: string
  frequency :: nat
  examples :: "string list"
  impact :: impact_level

record TransformationNarrative =
  beforeState :: string
  afterState :: string
  journey :: "string list"
  promises :: "string list"
  evidence :: "string list"

record MissionVision =
  mission :: string
  vision :: string
  mv_values :: "string list"
  beliefs :: "string list"
  goals :: "string list"

record NeuropsychAnalysis =
  influencerId :: string
  analyzedAt :: string
  posts :: "Post list"
  brandProfile :: BrandProfile
  languagePatterns :: LanguagePatterns
  psychologicalTriggers :: "PsychologicalTrigger list"
  transformationNarrative :: TransformationNarrative
  missionVision :: MissionVision
  overallAssessment :: string

section \<open>Shared helpers of the extractors\<close>

text \<open>A \<open>Map\<close> keeps its keys in insertion order: an association list, where \<open>set\<close>
  overwrites in place or appends.\<close>

fun map_set :: "('k \<times> 'v) list \<Rightarrow> 'k \<Rightarrow> 'v \<Rightarrow> ('k \<times> 'v) list" where
  "map_set [] k v = [(k, v)]"
| "map_set ((k', v') # m) k v = (if k' = k then (k, v) # m else (k', v') # map_set m k v)"

definition map_get :: "('k \<times> 'v) list \<Rightarrow> 'k \<Rightarrow> 'v option" where
  "map_get m k = map_of m k"

text \<open>\<open>phraseMap.set(phrase, (phraseMap.get(phrase) || 0) + 1)\<close>.\<close>

definition bump :: "(string \<times> nat) list \<Rightarrow> string \<Rightarrow> (string \<times> nat) list" where
  "bump m k = map_set m k ((case map_get m k of None \<Rightarrow> 0 | Some c \<Rightarrow> c) + 1)"

text \<open>\<open>Array.from(phraseMap.entries()).sort((a, b) => b[1] - a[1]).slice(0, 5)\<close> and the
  projection to the phrases. \<open>Array.prototype.sort\<close> is stable, as \<open>sort_key\<close> is.\<close>

definition top5 :: "(string \<times> nat) list \<Rightarrow> string list" where
  "top5 m = map fst (take 5 (sort_key (\<lambda>(p, c). - int c) m))"

text \<open>\<open>String.prototype.includes\<close>.\<close>

fun js_includes :: "string \<Rightarrow> string \<Rightarrow> bool" where
  "js_includes [] w = (w = [])"
| "js_includes (c # cs) w = (take (length w) (c # cs) = w \<or> js_includes cs w)"

text \<open>\<open>Math.round\<close>, on the exact argument. The source computes the argument in floating
  point, so where the exact argument is a half apart from an integer the two can differ by
  one (29 of 200 at scale 100 is 14.5 here and a little less there); a rounded value is
  stated below only where both agree.\<close>

definition js_round :: "rat \<Rightarrow> int" where
  "js_round q = \<lfloor>q + 1 / 2\<rfloor>"

text \<open>A natural number as a decimal numeral, as a template literal prints it.\<close>

fun digit_char :: "nat \<Rightarrow> char" where
  "digit_char n = ''0123456789'' ! (n mod 10)"

function show_nat :: "nat \<Rightarrow> string" where
  "show_nat n = (if n < 10 then [digit_char n] else show_nat (n div 10) @ [digit_char n])"
  by pat_completeness auto
termination
  by (relation "measure id") auto

declare show_nat.simps [simp del]


section \<open>The analyzer (src/lib/neuropsych-analyzer.ts)\<close>

subsection \<open>The model client\<close>

text \<open>
  The module keeps one lazily built client. The environment variable \<open>OPENAI_API_KEY\<close> is
  a string or absent. The remote call, the choice of the first completion and
  \<open>JSON.parse\<close> of its content are one parameter \<open>llm\<close>: the parsed answer, or the error
  that one of the three throws.
\<close>

record Client =
  apiKey :: string

definition getOpenAIClient :: "string option \<Rightarrow> Client option \<Rightarrow> Client option \<times> Client option" where
  "getOpenAIClient env_key openai =
     (if str_or env_key [] = [] then (None, openai)
      else
        let openai' = (case openai of None \<Rightarrow> Some \<lparr>apiKey = str_or env_key []\<rparr> | Some c \<Rightarrow> Some c)
        in (openai', openai'))"

definition getDefaultBrandProfile :: BrandProfile where
  "getDefaultBrandProfile =
     \<lparr>positioning =
        \<lparr>archetype = JStr ''Creator'',
         authority = JNum 75,
         relatability = JNum 80,
         expertise = JNum 85,
         pos_description = JStr ''A thought leader sharing practical insights from experience''\<rparr>,
      tone =
        \<lparr>primary = JStr ''Conversational'',
         secondary = JArr [JStr ''Inspiring'', JStr ''Educational''],
         emotionalRange = JStr ''Balanced with optimistic lean''\<rparr>,
      uniqueValue = JStr ''Bridging the gap between theory and practice with real-world examples''\<rparr>"

definition brandPrompt :: "string \<Rightarrow> string" where
  "brandPrompt content =
     ''Analyze the following content and identify the brand profile:'' @ [CHR 0x0A] @
     ''  1. What archetype does this person embody? (e.g., Sage, Hero, Creator, Ruler, etc.)'' @ [CHR 0x0A] @
     ''  2. Rate their authority level (0-100)'' @ [CHR 0x0A] @
     ''  3. Rate their relatability (0-100)'' @ [CHR 0x0A] @
     ''  4. Rate their expertise demonstration (0-100)'' @ [CHR 0x0A] @
     ''  5. What is their primary and secondary tone?'' @ [CHR 0x0A] @
     ''  6. What is their unique value proposition?'' @ [CHR 0x0A] @
     ''  '' @ [CHR 0x0A] @
     ''  Content: '' @ take 3000 content @ [CHR 0x0A] @
     ''  '' @ [CHR 0x0A] @
     ''  Respond in JSON format.''" for content

text \<open>The body of the \<open>try\<close> block of \<open>analyzeBrandProfile\<close>: what the model answered,
  with a default for every member that is missing or falsy.\<close>

definition brandProfileFromModel :: "json \<Rightarrow> error + BrandProfile" where
  "brandProfileFromModel result =
     (case get_prop result ''archetype'' of
        Inl e \<Rightarrow> Inl e
      | Inr _ \<Rightarrow>
          let prop = (\<lambda>k. case get_prop result k of Inl _ \<Rightarrow> JUndefined | Inr v \<Rightarrow> v)
          in Inr
            \<lparr>positioning =
               \<lparr>archetype = js_or (prop ''archetype'') (JStr ''Creator''),
                authority = js_or (prop ''authority'') (JNum 75),
                relatability = js_or (prop ''relatability'') (JNum 80),
                expertise = js_or (prop ''expertise'') (JNum 85),
                pos_description = js_or (prop ''description'') (JStr ''A thought leader sharing insights'')\<rparr>,
             tone =
               \<lparr>primary = js_or (prop ''primaryTone'') (JStr ''Conversational''),
                secondary = js_or (prop ''secondaryTones'') (JArr [JStr ''Inspiring'', JStr ''Educational'']),
                emotionalRange = js_or (prop ''emotionalRange'') (JStr ''Balanced'')\<rparr>,
             uniqueValue = js_or (prop ''uniqueValue'') (JStr ''Practical insights from real experience'')\<rparr>)"

definition analyzeBrandProfile ::
  "string option \<Rightarrow> (Client \<Rightarrow> string \<Rightarrow> error + json) \<Rightarrow> Client option \<Rightarrow> string
   \<Rightarrow> BrandProfile \<times> Client option" where
  "analyzeBrandProfile env_key llm openai content =
     (case getOpenAIClient env_key openai of
        (None, openai') \<Rightarrow> (getDefaultBrandProfile, openai')
      | (Some client, openai') \<Rightarrow>
          (case llm client (brandPrompt content) of
             Inl e \<Rightarrow> (getDefaultBrandProfile, openai')
           | Inr result \<Rightarrow>
               (case brandProfileFromModel result of
                  Inl e \<Rightarrow> (getDefaultBrandProfile, openai')
                | Inr profile \<Rightarrow> (profile, openai'))))" for content

subsection \<open>Language patterns\<close>

definition whitespace :: rx where
  "whitespace = Plus (In Space)"

definition sentenceEnd :: rx where
  "sentenceEnd = Plus (In (AnyOf ''.!?''))"

definition positiveRegex :: rx where
  "positiveRegex =
     Seqs [WordB,
           Alts [Lit ''great'', Lit ''amazing'', Lit ''excellent'', Lit ''fantastic'',
                 Lit ''wonderful'', Lit ''success'', Lit ''love'', Lit ''happy''],
           WordB]"

definition negativeRegex :: rx where
  "negativeRegex =
     Seqs [WordB,
           Alts [Lit ''bad'', Lit ''terrible'', Lit ''awful'', Lit ''hate'', Lit ''fail'',
                 Lit ''wrong'', Lit ''mistake'', Lit ''problem''],
           WordB]"

text \<open>The constants \<open>positiveWords\<close> and \<open>negativeWords\<close> of the analyzer: the matches
  of the two word lists, \<open>content.match(/\b(...)\b/gi) || []\<close>.\<close>

definition positiveWords :: "string \<Rightarrow> string list" where
  "positiveWords content = js_match gi positiveRegex content" for content

definition negativeWords :: "string \<Rightarrow> string list" where
  "negativeWords content = js_match gi negativeRegex content" for content

definition sentencePhrases :: "string list \<Rightarrow> (string \<times> nat) list" where
  "sentencePhrases sentences =
     foldl (\<lambda>phraseMap sentence.
              let cleaned = trim (toLowerCase sentence)
              in if length cleaned > 10 \<and> length cleaned < 100 then bump phraseMap cleaned
                 else phraseMap)
       [] sentences"

definition powerWordsList :: "string list" where
  "powerWordsList =
     [''transform'', ''success'', ''growth'', ''master'', ''achieve'', ''powerful'',
      ''breakthrough'', ''revolutionary'']"

definition analyzeLanguagePatterns :: "string \<Rightarrow> LanguagePatterns" where
  "analyzeLanguagePatterns content =
     (let words = js_split g whitespace content;
          sentences = js_split g sentenceEnd content;
          commonPhrases = top5 (sentencePhrases sentences);
          foundPowerWords = filter (\<lambda>word. js_includes (toLowerCase content) word) powerWordsList;
          positiveCount = length (positiveWords content);
          negativeCount = length (negativeWords content);
          totalEmotionalWords = positiveCount + negativeCount + 100
      in \<lparr>commonPhrases = commonPhrases,
          vocabularyComplexity =
            (if rat_of_nat (length words) / rat_of_nat (length sentences) > 20 then Complex
             else Moderate),
          sentenceStructure = ''Varied with mix of short and long sentences'',
          rhetoricalDevices = [''Storytelling'', ''Questions'', ''Metaphors''],
          powerWords = foundPowerWords,
          emotionalTone =
            \<lparr>positive = js_round (rat_of_nat positiveCount / rat_of_nat totalEmotionalWords * 100),
             negative = js_round (rat_of_nat negativeCount / rat_of_nat totalEmotionalWords * 100),
             neutral = js_round (rat_of_nat (totalEmotionalWords - positiveCount - negativeCount)
                                 / rat_of_nat totalEmotionalWords * 100)\<rparr>\<rparr>)" for content

subsection \<open>Psychological triggers\<close>

definition fomoPatterns :: rx where
  "fomoPatterns =
     Alts [Lit ''limited time'', Lit ''don't miss'', Lit ''exclusive'',
           Seqs [Lit ''only '', Plus (In Digit)], Lit ''last chance'']"

definition socialProofPatterns :: rx where
  "socialProofPatterns =
     Alts [Seqs [Plus (In Digit), Star (In Space),
                 Alts [Lit ''people'', Lit ''customers'', Lit ''users'', Lit ''subscribers'']],
           Lit ''testimonial'', Lit ''success story'']"

definition authorityPatterns :: rx where
  "authorityPatterns =
     Alts [Lit ''expert'', Lit ''proven'', Lit ''research shows'', Lit ''studies indicate'',
           Lit ''years of experience'']"

definition reciprocityPatterns :: rx where
  "reciprocityPatterns =
     Alts [Lit ''free'', Lit ''bonus'', Lit ''gift'', Lit ''complimentary'', Lit ''no cost'']"

definition analyzePsychologicalTriggers :: "string \<Rightarrow> PsychologicalTrigger list" where
  "analyzePsychologicalTriggers content =
     (let triggers = [];
          fomoMatches = js_match gi fomoPatterns content;
          triggers =
            (if length fomoMatches > 0
             then triggers @
               [\<lparr>trigger_type = ''FOMO (Fear of Missing Out)'',
                 frequency = length fomoMatches,
                 examples = take 3 fomoMatches,
                 impact = (if length fomoMatches > 5 then High else Medium)\<rparr>]
             else triggers);
          socialMatches = js_match gi socialProofPatterns content;
          triggers =
            (if length socialMatches > 0
             then triggers @
               [\<lparr>trigger_type = ''Social Proof'',
                 frequency = length socialMatches,
                 examples = take 3 socialMatches,
                 impact = (if length socialMatches > 3 then High else Medium)\<rparr>]
             else triggers);
          authorityMatches = js_match gi authorityPatterns content;
          triggers =
            (if length authorityMatches > 0
             then triggers @
               [\<lparr>trigger_type = ''Authority'',
                 frequency = length authorityMatches,
                 examples = take 3 authorityMatches,
                 impact = (if length authorityMatches > 4 then High else Medium)\<rparr>]
             else triggers);
          reciprocityMatches = js_match gi reciprocityPatterns content;
          triggers =
            (if length reciprocityMatches > 0
             then triggers @
               [\<lparr>trigger_type = ''Reciprocity'',
                 frequency = length reciprocityMatches,
                 examples = take 3 reciprocityMatches,
                 impact = (if length reciprocityMatches > 2 then Medium else Low)\<rparr>]
             else triggers)
      in triggers)" for content


subsection \<open>The fixed parts of the report\<close>

definition analyzeTransformationNarrative :: "string \<Rightarrow> TransformationNarrative" where
  "analyzeTransformationNarrative content =
     \<lparr>beforeState = ''Struggling with traditional approaches'',
      afterState = ''Achieving success through innovative methods'',
      journey =
        [''Recognized the problem'', ''Experimented with solutions'',
         ''Found breakthrough approach'', ''Scaled and systematized'',
         ''Sharing knowledge with others''],
      promises =
        [''Learn from real experience'', ''Avoid common mistakes'', ''Accelerate your growth'',
         ''Build sustainable success''],
      evidence =
        [''Personal case studies'', ''Client success stories'', ''Data and metrics'',
         ''Industry recognition'']\<rparr>" for content

definition analyzeMissionVision :: "string \<Rightarrow> MissionVision" where
  "analyzeMissionVision content =
     \<lparr>mission = ''To share practical insights that help entrepreneurs and creators build successful businesses'',
      vision = ''A world where everyone has access to the knowledge and tools needed to create value'',
      mv_values =
        [''Transparency'', ''Continuous Learning'', ''Community'', ''Innovation'',
         ''Practical Application''],
      beliefs =
        [''Success comes from consistent action'', ''Learning from others accelerates growth'',
         ''Building in public creates accountability'',
         ''Small experiments lead to big breakthroughs''],
      goals =
        [''Educate and inspire creators'', ''Build a supportive community'',
         ''Share actionable strategies'', ''Document the journey'']\<rparr>" for content

definition generateOverallAssessment :: "string \<Rightarrow> string" where
  "generateOverallAssessment content =
     ''This influencer demonstrates a strong command of neuropsychological branding principles. '' @
     ''Their content consistently employs authority-building language while maintaining relatability through personal storytelling. '' @
     ''The transformation narrative is clear and compelling, moving from struggle to success through systematic experimentation. '' @
     ''Key psychological triggers including social proof and FOMO are strategically deployed without being overwhelming. '' @
     ''The overall brand positioning balances expertise with accessibility, making complex topics digestible for the target audience.''"
  for content

definition getDefaultAnalysis :: "string \<Rightarrow> string \<Rightarrow> Post list \<Rightarrow> NeuropsychAnalysis" where
  "getDefaultAnalysis now influencerId posts =
     \<lparr>influencerId = influencerId,
      analyzedAt = now,
      posts = posts,
      brandProfile = getDefaultBrandProfile,
      languagePatterns =
        \<lparr>commonPhrases = [],
         vocabularyComplexity = Moderate,
         sentenceStructure = ''Varied'',
         rhetoricalDevices = [''Storytelling''],
         powerWords = [],
         emotionalTone = \<lparr>positive = 60, negative = 10, neutral = 30\<rparr>\<rparr>,
      psychologicalTriggers = [],
      transformationNarrative =
        \<lparr>beforeState = ''Starting point'',
         afterState = ''Success achieved'',
         journey = [''Discovery'', ''Learning'', ''Application''],
         promises = [''Growth'', ''Success''],
         evidence = [''Results'', ''Testimonials'']\<rparr>,
      missionVision =
        \<lparr>mission = ''To educate and inspire'',
         vision = ''A better future'',
         mv_values = [''Innovation'', ''Community''],
         beliefs = [''Continuous improvement''],
         goals = [''Impact'', ''Growth'']\<rparr>,
      overallAssessment = ''Analysis pending''\<rparr>" for influencerId posts

subsection \<open>The report assembler\<close>

text \<open>
  An \<open>async\<close> function returns or throws: its outcome is a value of \<open>error + 'a\<close>. The six
  extractors run under one \<open>Promise.all\<close> inside a \<open>try\<close>, whose \<open>catch\<close> returns the default
  report. \<open>now\<close> is the clock (\<open>new Date().toISOString()\<close>).
\<close>

definition promise_all6 ::
  "error + 'a \<Rightarrow> error + 'b \<Rightarrow> error + 'c \<Rightarrow> error + 'd \<Rightarrow> error + 'e \<Rightarrow> error + 'f
   \<Rightarrow> error + ('a \<times> 'b \<times> 'c \<times> 'd \<times> 'e \<times> 'f)" where
  "promise_all6 a b c d e f =
     (case a of Inl x \<Rightarrow> Inl x | Inr a' \<Rightarrow>
      case b of Inl x \<Rightarrow> Inl x | Inr b' \<Rightarrow>
      case c of Inl x \<Rightarrow> Inl x | Inr c' \<Rightarrow>
      case d of Inl x \<Rightarrow> Inl x | Inr d' \<Rightarrow>
      case e of Inl x \<Rightarrow> Inl x | Inr e' \<Rightarrow>
      case f of Inl x \<Rightarrow> Inl x | Inr f' \<Rightarrow> Inr (a', b', c', d', e', f'))"

definition analyzeNeuropsychology ::
  "string option \<Rightarrow> (Client \<Rightarrow> string \<Rightarrow> error + json) \<Rightarrow> string \<Rightarrow> Client option
   \<Rightarrow> string \<Rightarrow> Post list \<Rightarrow> (error + NeuropsychAnalysis) \<times> Client option" where
  "analyzeNeuropsychology env_key llm now openai influencerId posts =
     (let combinedContent = js_join [CHR 0x0A, CHR 0x0A] (map cleanContent posts);
          (profile, openai') = analyzeBrandProfile env_key llm openai combinedContent
      in (case promise_all6
                 (Inr profile)
                 (Inr (analyzeLanguagePatterns combinedContent))
                 (Inr (analyzePsychologicalTriggers combinedContent))
                 (Inr (analyzeTransformationNarrative combinedContent))
                 (Inr (analyzeMissionVision combinedContent))
                 (Inr (generateOverallAssessment combinedContent)) of
            Inr (brandProfile', languagePatterns', psychologicalTriggers',
                 transformationNarrative', missionVision', overallAssessment') \<Rightarrow>
              Inr \<lparr>influencerId = influencerId,
                   analyzedAt = now,
                   posts = posts,
                   brandProfile = brandProfile',
                   languagePatterns = languagePatterns',
                   psychologicalTriggers = psychologicalTriggers',
                   transformationNarrative = transformationNarrative',
                   missionVision = missionVision',
                   overallAssessment = overallAssessment'\<rparr>
          | Inl err \<Rightarrow> Inr (getDefaultAnalysis now influencerId posts),
          openai'))" for influencerId posts

section \<open>The file-backed store (src/lib/data-manager.ts)\<close>

text \<open>
  The data directory: the roster file \<open>influencers.json\<close> (absent, unreadable or not JSON:
  \<open>None\<close>; otherwise the array it holds), one analysis file per influencer id, and whether
  a write succeeds. \<open>JSON.stringify\<close> followed by \<open>JSON.parse\<close> gives the records back.
  \<open>ensureDataDirectories\<close> catches its own errors and changes none of the three.
\<close>

record Disk =
  influencers_file :: "Influencer list option"
  analyses_dir :: "string \<Rightarrow> NeuropsychAnalysis option"
  writable :: bool

definition getInfluencers :: "Disk \<Rightarrow> Influencer list" where
  "getInfluencers disk = (case influencers_file disk of None \<Rightarrow> [] | Some xs \<Rightarrow> xs)"

text \<open>\<open>Array.prototype.findIndex\<close>: the first index whose element passes, or -1.\<close>

fun findIndex :: "('a \<Rightarrow> bool) \<Rightarrow> 'a list \<Rightarrow> int" where
  "findIndex P [] = - 1"
| "findIndex P (x # xs) =
     (if P x then 0 else (let k = findIndex P xs in if k < 0 then - 1 else k + 1))"

definition saveInfluencer :: "Disk \<Rightarrow> Influencer \<Rightarrow> error + Disk" where
  "saveInfluencer disk influencer =
     (let influencers = getInfluencers disk;
          existingIndex = findIndex (\<lambda>i. inf_id i = inf_id influencer) influencers;
          influencers =
            (if existingIndex \<ge> 0 then influencers[nat existingIndex := influencer]
             else influencers @ [influencer])
      in if writable disk then Inr (disk\<lparr>influencers_file := Some influencers\<rparr>)
         else Inl IOError)"

definition getInfluencer :: "Disk \<Rightarrow> string \<Rightarrow> Influencer option" where
  "getInfluencer disk slug = find (\<lambda>i. Influencer.slug i = slug) (getInfluencers disk)" for slug

definition saveAnalysis :: "Disk \<Rightarrow> NeuropsychAnalysis \<Rightarrow> error + Disk" where
  "saveAnalysis disk analysis =
     (if writable disk
      then Inr (disk\<lparr>analyses_dir := (analyses_dir disk)(influencerId analysis \<mapsto> analysis)\<rparr>)
      else Inl IOError)"

definition getAnalysis :: "Disk \<Rightarrow> string \<Rightarrow> NeuropsychAnalysis option" where
  "getAnalysis disk influencerId = analyses_dir disk influencerId" for influencerId


section \<open>The feed retriever (src/lib/rss-parser.ts)\<close>

text \<open>The network and the feed parser are the parameter \<open>parseURL\<close>: the parsed feed, or
  \<open>None\<close> when the call throws.\<close>

record Item =
  item_title :: "string option"
  item_content :: "string option"
  contentSnippet :: "string option"
  item_pubDate :: "string option"
  item_link :: "string option"
  creator :: "string option"
  item_categories :: "string list option"

record Feed =
  feed_title :: "string option"
  items :: "Item list"

text \<open>\<open>s.toLowerCase().replace(/\s+/g, '-')\<close>.\<close>

definition slugify :: "string \<Rightarrow> string" where
  "slugify s = js_replace g whitespace ''-'' (toLowerCase s)"

definition endsWith :: "string \<Rightarrow> string \<Rightarrow> bool" where
  "endsWith s suffix = (length suffix \<le> length s \<and> drop (length s - length suffix) s = suffix)"

text \<open>\<open>s.replace(re, rep)\<close> for a regular expression without the \<open>g\<close> flag: the first
  match only.\<close>

definition js_replace_first :: "flags \<Rightarrow> rx \<Rightarrow> string \<Rightarrow> string \<Rightarrow> string" where
  "js_replace_first fl r rep s = replace_matches s rep 0 (take 1 (scan fl r s 0))"

definition fetchRSSFeed :: "(string \<Rightarrow> Feed option) \<Rightarrow> string \<Rightarrow> string \<Rightarrow> error + Post list" where
  "fetchRSSFeed parseURL now feedUrl =
     (case parseURL feedUrl of
        None \<Rightarrow> Inl FeedError
      | Some feed \<Rightarrow>
          Inr (map (\<lambda>(item, index).
                 \<lparr>post_id =
                    (case feed_title feed of None \<Rightarrow> ''undefined'' | Some t \<Rightarrow> slugify t)
                    @ ''-'' @ show_nat index,
                  title = str_or (item_title item) [],
                  content = str_or (item_content item) (str_or (contentSnippet item) []),
                  cleanContent = [],
                  pubDate = str_or (item_pubDate item) now,
                  link = str_or (item_link item) [],
                  author =
                    (if str_or (creator item) [] = [] then feed_title feed else creator item),
                  categories =
                    Some (case item_categories item of None \<Rightarrow> [] | Some cs \<Rightarrow> cs)\<rparr>)
               (zip (items feed) [0..<length (items feed)])))"

definition fetchSubstackFeed :: "(string \<Rightarrow> Feed option) \<Rightarrow> string \<Rightarrow> string \<Rightarrow> error + Post list" where
  "fetchSubstackFeed parseURL now substackUrl =
     (let feedUrl =
            (if endsWith substackUrl ''/feed'' then substackUrl
             else js_replace_first g (Seqs [Lit ''/'', Eol]) [] substackUrl @ ''/feed'')
      in fetchRSSFeed parseURL now feedUrl)" for substackUrl

section \<open>The analyze endpoint (src/app/api/analyze/route.ts)\<close>

text \<open>
  What the endpoint can change: the data directory and the module's cached client. A
  response is its status and its JSON body. The request body is the value \<open>request.json()\<close>
  gives, or \<open>None\<close> when it throws.
\<close>

record World =
  disk :: Disk
  openai :: "Client option"

datatype Payload = ErrorJson string | SuccessJson Influencer string

record Response =
  status :: nat
  payload :: Payload

definition failed :: Response where
  "failed = \<lparr>status = 500, payload = ErrorJson ''Failed to analyze influencer''\<rparr>"

text \<open>The \<open>try\<close> block after the check of the required fields; every \<open>Inl\<close> is a throw
  that the \<open>catch\<close> answers with status 500, the writes made so far staying.\<close>

definition analyzeRequest ::
  "string option \<Rightarrow> (string \<Rightarrow> Feed option) \<Rightarrow> (Client \<Rightarrow> string \<Rightarrow> error + json) \<Rightarrow> string
   \<Rightarrow> World \<Rightarrow> string \<Rightarrow> string \<Rightarrow> json \<Rightarrow> Response \<times> World" where
  "analyzeRequest env_key parseURL llm now world name substackUrl description =
     (let slug = slugify name;
          id = slug
      in case fetchSubstackFeed parseURL now substackUrl of
           Inl e \<Rightarrow> (failed, world)
         | Inr fetched \<Rightarrow>
             let cleanedPosts =
                   map (\<lambda>post. post\<lparr>cleanContent := cleanSubstackContent (content post)\<rparr>) fetched;
                 influencer =
                   \<lparr>inf_id = id,
                    name = name,
                    slug = slug,
                    substackUrl = substackUrl,
                    rssUrl =
                      (if endsWith substackUrl ''/feed'' then substackUrl
                       else substackUrl @ ''/feed''),
                    description =
                      js_or description (JStr (''Analysis of '' @ name @ [CHR 0x27] @ ''s content'')),
                    lastAnalyzed = Some now,
                    postCount = Some (length cleanedPosts)\<rparr>
             in case saveInfluencer (disk world) influencer of
                  Inl e \<Rightarrow> (failed, world)
                | Inr disk1 \<Rightarrow>
                    (case analyzeNeuropsychology env_key llm now (openai world) id cleanedPosts of
                       (Inl e, openai1) \<Rightarrow> (failed, \<lparr>disk = disk1, openai = openai1\<rparr>)
                     | (Inr analysis, openai1) \<Rightarrow>
                         (case saveAnalysis disk1 analysis of
                            Inl e \<Rightarrow> (failed, \<lparr>disk = disk1, openai = openai1\<rparr>)
                          | Inr disk2 \<Rightarrow>
                              (\<lparr>status = 200, payload = SuccessJson influencer id\<rparr>,
                               \<lparr>disk = disk2, openai = openai1\<rparr>))))"
  for name substackUrl description

definition POST ::
  "string option \<Rightarrow> (string \<Rightarrow> Feed option) \<Rightarrow> (Client \<Rightarrow> string \<Rightarrow> error + json) \<Rightarrow> string
   \<Rightarrow> World \<Rightarrow> json option \<Rightarrow> Response \<times> World" where
  "POST env_key parseURL llm now world request =
     (case request of
        None \<Rightarrow> (failed, world)
      | Some body \<Rightarrow>
          (case (get_prop body ''name'', get_prop body ''substackUrl'',
                 get_prop body ''description'') of
             (Inr name', Inr substackUrl', Inr description') \<Rightarrow>
               if \<not> truthy name' \<or> \<not> truthy substackUrl'
               then (\<lparr>status = 400, payload = ErrorJson ''Name and Substack URL are required''\<rparr>,
                     world)
               else (case (name', substackUrl') of
                       (JStr n, JStr u) \<Rightarrow> analyzeRequest env_key parseURL llm now world n u description'
                     | _ \<Rightarrow> (failed, world))
           | _ \<Rightarrow> (failed, world)))"


section \<open>The batch analysis (src/scripts/analyze-posts.ts)\<close>



subsection \<open>Language patterns\<close>

text \<open>The loop \<open>for (let i = 0; i < words.length - 4; i++)\<close>: its indices, and the
  phrase map it builds from the window \<open>words.slice(i, i + 4)\<close> at each.\<close>

definition windowIndices :: "string list \<Rightarrow> nat list" where
  "windowIndices words = [0..<length words - 4]"

definition windowPhrase :: "string list \<Rightarrow> nat \<Rightarrow> string" where
  "windowPhrase words i = toLowerCase (js_join '' '' (take 4 (drop i words)))"

definition windowPhrases :: "string list \<Rightarrow> (string \<times> nat) list" where
  "windowPhrases words =
     foldl (\<lambda>phraseMap i.
              let phrase = windowPhrase words i
              in if length phrase > 10 \<and> length phrase < 50 then bump phraseMap phrase
                 else phraseMap)
       [] (windowIndices words)"

definition fallbackPhrases :: "string list" where
  "fallbackPhrases =
     [''building systems'', ''creating value'', ''growth mindset'', ''consistent action'',
      ''leverage knowledge'']"

definition powerWordsList_script :: "string list" where
  "powerWordsList_script =
     [''transform'', ''leverage'', ''scale'', ''master'', ''achieve'', ''powerful'',
      ''breakthrough'', ''revolutionary'', ''system'', ''framework'', ''growth'', ''success'',
      ''focus'', ''consciousness'', ''create'', ''build'']"

definition positiveRegex_script :: rx where
  "positiveRegex_script =
     Seqs [WordB,
           Alts [Lit ''great'', Lit ''amazing'', Lit ''excellent'', Lit ''fantastic'',
                 Lit ''wonderful'', Lit ''success'', Lit ''love'', Lit ''happy'', Lit ''powerful'',
                 Lit ''achieve'', Lit ''win'', Lit ''growth''],
           WordB]"

definition negativeRegex_script :: rx where
  "negativeRegex_script =
     Seqs [WordB,
           Alts [Lit ''bad'', Lit ''terrible'', Lit ''awful'', Lit ''hate'', Lit ''fail'',
                 Lit ''wrong'', Lit ''mistake'', Lit ''problem'', Lit ''struggle'', Lit ''pain'',
                 Lit ''lose''],
           WordB]"

text \<open>The constants \<open>positiveWords\<close> and \<open>negativeWords\<close> of the script: the numbers
  of matches of its two word lists, \<open>(allContent.match(/\b(...)\b/gi) || []).length\<close>.\<close>

definition positiveWords_script :: "string \<Rightarrow> nat" where
  "positiveWords_script allContent = length (js_match gi positiveRegex_script allContent)"

definition negativeWords_script :: "string \<Rightarrow> nat" where
  "negativeWords_script allContent = length (js_match gi negativeRegex_script allContent)"

definition analyzeLanguagePatterns_script :: "Post list \<Rightarrow> LanguagePatterns" where
  "analyzeLanguagePatterns_script posts =
     (let allContent = js_join '' '' (map cleanContent posts);
          words = js_split g whitespace allContent;
          sentences = js_split g sentenceEnd allContent;
          commonPhrases = top5 (windowPhrases words);
          foundPowerWords =
            take 7 (filter (\<lambda>word. js_includes (toLowerCase allContent) word) powerWordsList_script);
          positiveCount = positiveWords_script allContent;
          negativeCount = negativeWords_script allContent;
          totalWords = length words
      in \<lparr>commonPhrases = (if length commonPhrases > 0 then commonPhrases else fallbackPhrases),
          vocabularyComplexity =
            (if rat_of_nat (length words) / rat_of_nat (length sentences) > 20 then Complex
             else Moderate),
          sentenceStructure = ''Varied with mix of short punchy statements and detailed explanations'',
          rhetoricalDevices = [''Storytelling'', ''Pattern Recognition'', ''Frameworks'', ''Analogies''],
          powerWords = foundPowerWords,
          emotionalTone =
            \<lparr>positive = js_round (rat_of_nat positiveCount / rat_of_nat totalWords * 1000),
             negative = js_round (rat_of_nat negativeCount / rat_of_nat totalWords * 1000),
             neutral = js_round ((rat_of_nat totalWords - rat_of_nat positiveCount
                                   - rat_of_nat negativeCount)
                                 / rat_of_nat totalWords * 1000)\<rparr>\<rparr>)" for posts

subsection \<open>Psychological triggers\<close>

definition fomoPatterns_script :: rx where
  "fomoPatterns_script =
     Seqs [WordB,
           Alts [Lit ''limited time'', Lit ''don't miss'', Lit ''exclusive'',
                 Seqs [Lit ''only '', Plus (In Digit)], Lit ''last chance'', Lit ''closing soon'',
                 Lit ''before it's too late''],
           WordB]"

definition socialPatterns_script :: rx where
  "socialPatterns_script =
     Seqs [WordB,
           Alts [Seqs [Plus (In Digit), Opt (In (AnyOf ''kK'')), Opt (Lit ''+''), Star (In Space),
                       Alts [Lit ''people'', Lit ''customers'', Lit ''users'', Lit ''subscribers'',
                             Lit ''students'', Lit ''followers'']],
                 Lit ''testimonial'', Lit ''success story'', Lit ''case study''],
           WordB]"

definition authorityPatterns_script :: rx where
  "authorityPatterns_script =
     Seqs [WordB,
           Alts [Lit ''expert'', Lit ''proven'', Lit ''research shows'', Lit ''studies'',
                 Lit ''years of experience'', Lit ''I've tested'', Lit ''I've built'',
                 Lit ''my system''],
           WordB]"

definition transformPatterns_script :: rx where
  "transformPatterns_script =
     Seqs [WordB,
           Alts [Lit ''transform'', Lit ''change your life'', Lit ''breakthrough'', Lit ''unlock'',
                 Lit ''discover'', Lit ''master'', Lit ''become'', Lit ''achieve''],
           WordB]"

definition analyzePsychologicalTriggers_script :: "Post list \<Rightarrow> PsychologicalTrigger list" where
  "analyzePsychologicalTriggers_script posts =
     (let allContent = js_join '' '' (map cleanContent posts);
          triggers = [];
          fomoMatches = js_match gi fomoPatterns_script allContent;
          triggers =
            (if length fomoMatches > 0
             then triggers @
               [\<lparr>trigger_type = ''FOMO (Fear of Missing Out)'',
                 frequency = length fomoMatches,
                 examples = take 3 (from_Set fomoMatches),
                 impact = (if length fomoMatches > 5 then High else Medium)\<rparr>]
             else triggers);
          socialMatches = js_match gi socialPatterns_script allContent;
          triggers =
            (if length socialMatches > 0
             then triggers @
               [\<lparr>trigger_type = ''Social Proof'',
                 frequency = length socialMatches,
                 examples = take 3 (from_Set socialMatches),
                 impact = (if length socialMatches > 3 then High else Medium)\<rparr>]
             else triggers);
          authorityMatches = js_match gi authorityPatterns_script allContent;
          triggers =
            (if length authorityMatches > 0
             then triggers @
               [\<lparr>trigger_type = ''Authority Building'',
                 frequency = length authorityMatches,
                 examples = take 3 (from_Set authorityMatches),
                 impact = (if length authorityMatches > 4 then High else Medium)\<rparr>]
             else triggers);
          transformMatches = js_match gi transformPatterns_script allContent;
          triggers =
            (if length transformMatches > 0
             then triggers @
               [\<lparr>trigger_type = ''Transformation Promise'',
                 frequency = length transformMatches,
                 examples = take 3 (from_Set transformMatches),
                 impact = (if length transformMatches > 6 then High else Medium)\<rparr>]
             else triggers)
      in triggers)" for posts

subsection \<open>The report of one influencer\<close>



section \<open>Facts about the regular expression engine\<close>

text \<open>The matches that \<open>scan\<close> reports are in order and do not overlap.\<close>

fun chain :: "nat \<Rightarrow> (nat \<times> nat) list \<Rightarrow> bool" where
  "chain p [] = True"
| "chain p ((b, e) # ms) = (p \<le> b \<and> b \<le> e \<and> chain e ms)"

lemma chain_mono: "chain p ms \<Longrightarrow> p' \<le> p \<Longrightarrow> chain p' ms"
  by (cases ms) auto

lemma scan_past: "length s < q \<Longrightarrow> scan fl r s q = []"
  by (subst scan.simps) simp

lemma scan_None:
  "q \<le> length s \<Longrightarrow> exec_at fl r s q = None \<Longrightarrow> scan fl r s q = scan fl r s (Suc q)"
  by (subst scan.simps) simp

lemma scan_Some:
  "q \<le> length s \<Longrightarrow> exec_at fl r s q = Some e \<Longrightarrow>
   scan fl r s q = (q, e) # scan fl r s (if e = q then Suc q else e)"
  by (subst scan.simps) simp

lemma chain_scan: "chain q (scan fl r s q)"
proof (induction fl r s q rule: scan.induct)
  case (1 fl r s q)
  show ?case
  proof (cases "length s < q")
    case True
    then show ?thesis by (simp add: scan_past)
  next
    case False
    then have q: "q \<le> length s" by simp
    show ?thesis
    proof (cases "exec_at fl r s q")
      case None
      from "1.IH"(1) [OF False None] have "chain q (scan fl r s (Suc q))"
        by (rule chain_mono) simp
      then show ?thesis using None q by (simp add: scan_None)
    next
      case (Some e)
      with q have qe: "q \<le> e" "e \<le> length s"
        using exec_at_bounds [of q s fl r e] by auto
      from "1.IH"(2) [OF False Some]
      have "chain e (scan fl r s (if e = q then Suc q else e))"
        by (rule chain_mono) (use qe in auto)
      then show ?thesis using Some q qe by (simp add: scan_Some)
    qed
  qed
qed

lemma set_replace_matches: "chain p ms \<Longrightarrow> set (replace_matches s rep p ms) \<subseteq> set (drop p s) \<union> set rep"
proof (induction ms arbitrary: p)
  case Nil
  then show ?case by simp
next
  case (Cons m ms)
  obtain b e where m: "m = (b, e)" by (cases m)
  from Cons.prems m have pb: "p \<le> b" "b \<le> e" "chain e ms" by auto
  have "set (drop e s) \<subseteq> set (drop p s)"
    using pb by (metis le_trans set_drop_subset_set_drop)
  moreover have "set (substring s p b) \<subseteq> set (drop p s)"
    by (simp add: substring_def set_take_subset)
  ultimately show ?case using Cons.IH [OF pb(3)] m pb by auto
qed

section \<open>C1: the normalizer and idempotence\<close>

text \<open>A text is free of markup when no \<open><\<close> in it has a \<open>>\<close> somewhere after it: the
  pattern \<open><[^>]*>\<close> then matches nowhere.\<close>

fun tagfree :: "string \<Rightarrow> bool" where
  "tagfree [] = True"
| "tagfree (c # cs) = ((c = CHR ''<'' \<longrightarrow> CHR ''>'' \<notin> set cs) \<and> tagfree cs)"

lemma tagfree_append:
  "tagfree (xs @ ys) = (tagfree xs \<and> tagfree ys \<and> (CHR ''<'' \<in> set xs \<longrightarrow> CHR ''>'' \<notin> set ys))"
  by (induction xs) auto

lemma tagfree_no_angle: "CHR ''<'' \<notin> set xs \<Longrightarrow> tagfree xs"
  by (induction xs) auto

lemma tagfree_drop: "tagfree s \<Longrightarrow> tagfree (drop n s)"
  using tagfree_append [of "take n s" "drop n s"] by simp

lemma tagfree_take: "tagfree s \<Longrightarrow> tagfree (take n s)"
  using tagfree_append [of "take n s" "drop n s"] by simp

lemma tagfree_replace_matches:
  "chain p ms \<Longrightarrow> tagfree (drop p s) \<Longrightarrow> CHR ''<'' \<notin> set rep \<Longrightarrow> CHR ''>'' \<notin> set rep
   \<Longrightarrow> tagfree (replace_matches s rep p ms)"
proof (induction ms arbitrary: p)
  case Nil
  then show ?case by simp
next
  case (Cons m ms)
  obtain b e where m: "m = (b, e)" by (cases m)
  from Cons.prems m have pb: "p \<le> b" "b \<le> e" "chain e ms" by auto
  have split: "drop p s = substring s p b @ drop b s"
    using pb by (simp add: substring_def) (metis add_diff_inverse_nat append_take_drop_id drop_drop leD add.commute)
  have de: "drop b s = substring s b e @ drop e s"
    using pb by (simp add: substring_def) (metis add_diff_inverse_nat append_take_drop_id drop_drop leD add.commute)
  from Cons.prems(2) split have t1: "tagfree (substring s p b)" and t2: "tagfree (drop b s)"
    and x: "CHR ''<'' \<in> set (substring s p b) \<longrightarrow> CHR ''>'' \<notin> set (drop b s)"
    by (simp_all add: tagfree_append)
  from t2 de have t3: "tagfree (drop e s)" by (simp add: tagfree_append)
  have IH: "tagfree (replace_matches s rep e ms)"
    using Cons.IH [OF pb(3) t3 Cons.prems(3,4)] .
  have sub: "set (replace_matches s rep e ms) \<subseteq> set (drop e s) \<union> set rep"
    using set_replace_matches [OF pb(3)] .
  have "set (drop e s) \<subseteq> set (drop b s)" using de by auto
  with x sub Cons.prems(4) have x': "CHR ''<'' \<in> set (substring s p b) \<longrightarrow> CHR ''>'' \<notin> set (replace_matches s rep e ms)"
    by auto
  show ?case
    using m pb t1 IH x' Cons.prems(3,4) tagfree_no_angle [of rep]
    by (auto simp: tagfree_append)
qed

lemma tagfree_js_replace:
  "CHR ''<'' \<notin> set rep \<Longrightarrow> CHR ''>'' \<notin> set rep \<Longrightarrow> tagfree s \<Longrightarrow> tagfree (js_replace fl r rep s)"
  unfolding js_replace_def by (rule tagfree_replace_matches) (simp_all add: chain_scan)

lemma tagfree_trim: "tagfree s \<Longrightarrow> tagfree (trim s)"
proof -
  have a: "tagfree (dropWhile P s)" if "tagfree s" for P s
    using that tagfree_append [of "takeWhile P s" "dropWhile P s"] by simp
  have b: "tagfree (rev (dropWhile P (rev s)))" if "tagfree s" for P s
  proof -
    have "s = rev (dropWhile P (rev s)) @ rev (takeWhile P (rev s))"
      by (metis rev_append rev_rev_ident takeWhile_dropWhile_id)
    with that tagfree_append [of "rev (dropWhile P (rev s))" "rev (takeWhile P (rev s))"]
    show ?thesis by simp
  qed
  assume "tagfree s"
  then show ?thesis unfolding trim_def by (intro b a)
qed


lemma lit_at_single: "lit_at g [c] s i = (i < length s \<and> s ! i = c)"
proof (cases "i < length s")
  case True
  then have "drop i s = s ! i # drop (Suc i) s" by (simp add: Cons_nth_drop_Suc)
  then show ?thesis using True by (simp add: lit_at_def ceq_def g_def)
next
  case False
  then show ?thesis by (simp add: lit_at_def)
qed

definition notGt :: rx where
  "notGt = NotIn (AnyOf ''>'')"

lemma rmatch_notGt:
  "rmatch g s notGt i = (if i < length s \<and> s ! i \<noteq> CHR ''>'' then [Suc i] else [])"
  by (simp add: notGt_def ceq_def g_def)

lemma star_notGt_finds:
  "i \<le> length s \<Longrightarrow> CHR ''>'' \<in> set (drop i s) \<Longrightarrow>
   \<exists>k \<in> set (rmatch g s (Star notGt) i). i \<le> k \<and> k < length s \<and> s ! k = CHR ''>''"
proof (induction "length s - i" arbitrary: i)
  case 0
  then show ?case by simp
next
  case (Suc n)
  then have i: "i < length s" by simp
  then have d: "drop i s = s ! i # drop (Suc i) s" by (simp add: Cons_nth_drop_Suc)
  show ?case
  proof (cases "s ! i = CHR ''>''")
    case True
    have "i \<in> set (rmatch g s (Star notGt) i)" by (subst rmatch.simps(9)) simp
    with True i show ?thesis by blast
  next
    case False
    with Suc.prems(2) d have "CHR ''>'' \<in> set (drop (Suc i) s)" by auto
    moreover have "n = length s - Suc i" using Suc.hyps(2) by simp
    ultimately obtain k where k: "k \<in> set (rmatch g s (Star notGt) (Suc i))"
      "Suc i \<le> k" "k < length s" "s ! k = CHR ''>''"
      using Suc.hyps(1) [of "Suc i"] i by auto
    have "rmatch g s (Star notGt) i = rmatch g s (Star notGt) (Suc i) @ [i]"
      using False i by (subst rmatch.simps(9)) (simp add: rmatch_notGt)
    with k show ?thesis by auto
  qed
qed

lemma rmatch_htmlTag:
  "rmatch g s htmlTag q =
     (if q < length s \<and> s ! q = CHR ''<''
      then concat (map (rmatch g s (Lit ''>'')) (rmatch g s (Star notGt) (Suc q))) else [])"
proof (cases "q < length s \<and> s ! q = CHR ''<''")
  case True
  then have "rmatch g s (Lit ''<'') q = [Suc q]"
    by (simp only: rmatch.simps(1) lit_at_single) simp
  then show ?thesis
    using True by (simp add: htmlTag_def notGt_def del: rmatch.simps(1))
next
  case False
  then have "rmatch g s (Lit ''<'') q = []"
    by (simp only: rmatch.simps(1) lit_at_single) simp
  then have "rmatch g s htmlTag q = []"
    by (simp add: htmlTag_def del: rmatch.simps(1))
  then show ?thesis by (simp only: if_not_P [OF False])
qed

lemma exec_htmlTag_Some:
  assumes "exec_at g htmlTag s q = Some e"
  shows "q < length s \<and> s ! q = CHR ''<'' \<and> q < e \<and> CHR ''>'' \<in> set (drop (Suc q) s)"
proof -
  from assms have e: "e \<in> set (rmatch g s htmlTag q)"
    by (auto simp: exec_at_def split: list.splits)
  then have q: "q < length s" "s ! q = CHR ''<''"
    by (auto simp: rmatch_htmlTag split: if_splits)
  with e obtain k where k: "k \<in> set (rmatch g s (Star notGt) (Suc q))"
    "e \<in> set (rmatch g s (Lit ''>'') k)"
    by (auto simp: rmatch_htmlTag)
  from k(1) q have qk: "Suc q \<le> k" using rmatch_bounds [of "Suc q" s k g "Star notGt"] by simp
  from k(2) have kk: "k < length s" "s ! k = CHR ''>''" "e = Suc k"
    by (auto simp: lit_at_single split: if_splits)
  from qk kk have "CHR ''>'' \<in> set (drop (Suc q) s)"
    by (auto simp: in_set_conv_nth intro!: exI [of _ "k - Suc q"])
  with q qk kk show ?thesis by simp
qed

lemma exec_htmlTag_None:
  assumes "exec_at g htmlTag s q = None" "q < length s" "s ! q = CHR ''<''"
  shows "CHR ''>'' \<notin> set (drop (Suc q) s)"
proof
  assume "CHR ''>'' \<in> set (drop (Suc q) s)"
  with assms(2) obtain k where k: "k \<in> set (rmatch g s (Star notGt) (Suc q))"
    "k < length s" "s ! k = CHR ''>''"
    using star_notGt_finds [of "Suc q" s] by auto
  then have "Suc k \<in> set (rmatch g s (Lit ''>'') k)" by (simp add: lit_at_single)
  with k(1) assms(2,3) have "rmatch g s htmlTag q \<noteq> []"
    by (auto simp: rmatch_htmlTag)
  with assms(1) show False by (auto simp: exec_at_def split: list.splits)
qed

lemma replace_matches_step:
  "q < length s \<Longrightarrow> chain (Suc q) ms \<Longrightarrow> replace_matches s rep q ms = s ! q # replace_matches s rep (Suc q) ms"
proof (cases ms)
  case Nil
  assume "q < length s"
  then show ?thesis using Nil by (simp add: Cons_nth_drop_Suc)
next
  case (Cons m ms')
  assume q: "q < length s" and c: "chain (Suc q) ms"
  obtain b e where m: "m = (b, e)" by (cases m)
  from c Cons m have qb: "Suc q \<le> b" by simp
  then have "b - q = Suc (b - Suc q)" by simp
  then have "substring s q b = s ! q # substring s (Suc q) b"
    using q by (simp add: substring_def Cons_nth_drop_Suc [symmetric])
  then show ?thesis using Cons m qb by simp
qed

lemma tagfree_strip: "q \<le> length s \<Longrightarrow> tagfree (replace_matches s [] q (scan g htmlTag s q))"
proof (induction g htmlTag s q rule: scan.induct)
  case (1 s q)
  then have nq: "\<not> length s < q" by simp
  show ?case
  proof (cases "exec_at g htmlTag s q")
    case None
    show ?thesis
    proof (cases "q = length s")
      case True
      then show ?thesis using None by (simp add: scan_None scan_past)
    next
      case False
      with "1.prems" have q: "q < length s" by simp
      let ?ms = "scan g htmlTag s (Suc q)"
      have t: "tagfree (replace_matches s [] (Suc q) ?ms)"
        using "1.hyps"(1) [OF nq None] q by simp
      have "set (replace_matches s [] (Suc q) ?ms) \<subseteq> set (drop (Suc q) s)"
        using set_replace_matches [of "Suc q" ?ms s "[]"] chain_scan [of "Suc q" g htmlTag s] by simp
      moreover have "s ! q = CHR ''<'' \<longrightarrow> CHR ''>'' \<notin> set (drop (Suc q) s)"
        using exec_htmlTag_None [OF None q] by simp
      ultimately show ?thesis
        using t None q by (auto simp: scan_None replace_matches_step [OF q chain_scan])
    qed
  next
    case (Some e)
    from exec_htmlTag_Some [OF Some] have qe: "q < e" by simp
    from exec_at_bounds [OF "1.prems" Some] have "e \<le> length s" by simp
    with "1.hyps"(2) [OF nq Some] qe have "tagfree (replace_matches s [] e (scan g htmlTag s e))" by simp
    then show ?thesis using Some "1.prems" qe by (simp add: scan_Some substring_def)
  qed
qed

lemma tagfree_nth:
  assumes "tagfree s" "q < length s" "s ! q = CHR ''<''"
  shows "CHR ''>'' \<notin> set (drop (Suc q) s)"
proof -
  have "s = take q s @ s ! q # drop (Suc q) s" using assms(2) by (rule id_take_nth_drop)
  then have "tagfree (take q s @ s ! q # drop (Suc q) s)" using assms(1) by simp
  then show ?thesis using assms(3) by (simp add: tagfree_append)
qed

lemma tagfree_scan: "tagfree s \<Longrightarrow> scan g htmlTag s q = []"
proof (induction g htmlTag s q rule: scan.induct)
  case (1 s q)
  show ?case
  proof (cases "length s < q")
    case True
    then show ?thesis by (simp add: scan_past)
  next
    case False
    have "exec_at g htmlTag s q = None"
    proof (cases "exec_at g htmlTag s q")
      case (Some e)
      from exec_htmlTag_Some [OF Some] tagfree_nth [OF "1.prems"] show ?thesis by blast
    qed simp
    with "1.hyps"(1) [OF False this "1.prems"] False show ?thesis by (simp add: scan_None)
  qed
qed

lemma tagfree_htmlTag: "tagfree (js_replace g htmlTag [] s)"
  by (simp add: js_replace_def tagfree_strip)

lemma tagfree_cleanSubstackContent: "tagfree (cleanSubstackContent s)"
  unfolding cleanSubstackContent_def Let_def
  by (rule tagfree_trim) ((rule tagfree_htmlTag | (rule tagfree_js_replace, simp, simp))+)

lemma trim_trim: "trim (trim s) = trim s"
proof -
  define u where "u = dropWhile isWhiteSpace s"
  define t where "t = rev (dropWhile isWhiteSpace (rev u))"
  have ut: "u = t @ rev (takeWhile isWhiteSpace (rev u))"
    unfolding t_def by (metis rev_append rev_rev_ident takeWhile_dropWhile_id)
  have front: "dropWhile isWhiteSpace t = t"
  proof (cases t)
    case Nil
    then show ?thesis by simp
  next
    case (Cons c cs)
    with ut have "hd u = c" "u \<noteq> []" by (metis append_Cons list.sel(1), auto)
    then have "\<not> isWhiteSpace c" unfolding u_def by (metis hd_dropWhile)
    with Cons show ?thesis by simp
  qed
  have rear: "dropWhile isWhiteSpace (rev t) = rev t"
    unfolding t_def by (simp add: dropWhile_idem)
  show ?thesis
    using front rear by (simp add: trim_def u_def [symmetric] t_def [symmetric])
qed

text \<open>
  C1 as the specification states it: for every input, normalizing twice gives what
  normalizing once gives. It fails: removing \<open>Like\<close> from \<open>LiLikeke\<close> leaves \<open>Like\<close>, which
  the second pass removes.
\<close>

theorem cleanSubstackContent_not_idempotent:
  "cleanSubstackContent (cleanSubstackContent ''LiLikeke'') \<noteq> cleanSubstackContent ''LiLikeke''"
proof -
  have "cleanSubstackContent ''LiLikeke'' = ''Like''" by code_simp
  moreover have "cleanSubstackContent ''Like'' = []" by code_simp
  ultimately show ?thesis by simp
qed

text \<open>
  C1 as amended: for every input, the markup step and the trim find nothing left to do on a
  normalized text: removing the tags \<open><...>\<close> from the result of \<open>cleanSubstackContent\<close>
  gives that result back (markup that was removed cannot reappear), and so does trimming it.
\<close>

theorem cleaned_has_no_markup:
  "js_replace g htmlTag [] (cleanSubstackContent s) = cleanSubstackContent s
   \<and> trim (cleanSubstackContent s) = cleanSubstackContent s"
proof
  show "js_replace g htmlTag [] (cleanSubstackContent s) = cleanSubstackContent s"
    by (simp add: js_replace_def tagfree_scan [OF tagfree_cleanSubstackContent])
  show "trim (cleanSubstackContent s) = cleanSubstackContent s"
    by (simp add: cleanSubstackContent_def Let_def trim_trim)
qed


section \<open>The trigger extractors: C2, C4 and C5\<close>

text \<open>Each extractor is four blocks of the same shape: the entry of a category, present
  exactly when the category has a match.\<close>

definition trigger ::
  "string \<Rightarrow> string list \<Rightarrow> string list \<Rightarrow> impact_level \<Rightarrow> PsychologicalTrigger list" where
  "trigger ty ms ex lvl =
     (if ms = [] then []
      else [\<lparr>trigger_type = ty, frequency = length ms, examples = ex, impact = lvl\<rparr>])"

text \<open>The categories with their patterns, as the two extractors pair them.\<close>

definition triggerCategories :: "(string \<times> rx) list" where
  "triggerCategories =
     [(''FOMO (Fear of Missing Out)'', fomoPatterns),
      (''Social Proof'', socialProofPatterns),
      (''Authority'', authorityPatterns),
      (''Reciprocity'', reciprocityPatterns)]"

definition triggerCategories_script :: "(string \<times> rx) list" where
  "triggerCategories_script =
     [(''FOMO (Fear of Missing Out)'', fomoPatterns_script),
      (''Social Proof'', socialPatterns_script),
      (''Authority Building'', authorityPatterns_script),
      (''Transformation Promise'', transformPatterns_script)]"

text \<open>The thresholds of the specification, and its rule for the impact: high above the
  threshold, otherwise medium, and low for Reciprocity.\<close>

definition threshold :: "string \<Rightarrow> nat" where
  "threshold ty =
     (if ty = ''FOMO (Fear of Missing Out)'' then 5
      else if ty = ''Social Proof'' then 3
      else if ty = ''Authority'' \<or> ty = ''Authority Building'' then 4
      else if ty = ''Transformation Promise'' then 6
      else if ty = ''Reciprocity'' then 2
      else 0)"

definition spec_impact :: "string \<Rightarrow> nat \<Rightarrow> impact_level" where
  "spec_impact ty n =
     (if n > threshold ty then High else if ty = ''Reciprocity'' then Low else Medium)"

text \<open>The rule the code follows: Reciprocity is medium above its threshold and low
  otherwise; every other category is high above its threshold and medium otherwise.\<close>

definition impact_of :: "string \<Rightarrow> nat \<Rightarrow> impact_level" where
  "impact_of ty n =
     (if ty = ''Reciprocity'' then (if n > threshold ty then Medium else Low)
      else if n > threshold ty then High else Medium)"

text \<open>A post whose normalized content is the given text.\<close>

definition plainPost :: "string \<Rightarrow> Post" where
  "plainPost s =
     \<lparr>post_id = ''post-0'', title = [], content = s, cleanContent = s, pubDate = [], link = [],
      author = None, categories = None\<rparr>"

lemma analyzePsychologicalTriggers_eq:
  "analyzePsychologicalTriggers s =
     (let fomo = js_match gi fomoPatterns s;
          social = js_match gi socialProofPatterns s;
          auth = js_match gi authorityPatterns s;
          recip = js_match gi reciprocityPatterns s
      in trigger ''FOMO (Fear of Missing Out)'' fomo (take 3 fomo)
           (if length fomo > 5 then High else Medium)
         @ trigger ''Social Proof'' social (take 3 social)
           (if length social > 3 then High else Medium)
         @ trigger ''Authority'' auth (take 3 auth) (if length auth > 4 then High else Medium)
         @ trigger ''Reciprocity'' recip (take 3 recip)
           (if length recip > 2 then Medium else Low))"
  by (simp add: analyzePsychologicalTriggers_def trigger_def Let_def)

lemma analyzePsychologicalTriggers_script_eq:
  "analyzePsychologicalTriggers_script ps =
     (let allContent = js_join '' '' (map cleanContent ps);
          fomo = js_match gi fomoPatterns_script allContent;
          social = js_match gi socialPatterns_script allContent;
          auth = js_match gi authorityPatterns_script allContent;
          transform = js_match gi transformPatterns_script allContent
      in trigger ''FOMO (Fear of Missing Out)'' fomo (take 3 (from_Set fomo))
           (if length fomo > 5 then High else Medium)
         @ trigger ''Social Proof'' social (take 3 (from_Set social))
           (if length social > 3 then High else Medium)
         @ trigger ''Authority Building'' auth (take 3 (from_Set auth))
           (if length auth > 4 then High else Medium)
         @ trigger ''Transformation Promise'' transform (take 3 (from_Set transform))
           (if length transform > 6 then High else Medium))"
  by (simp add: analyzePsychologicalTriggers_script_def trigger_def Let_def)

lemma trigger_mem:
  "t \<in> set (trigger ty ms ex lvl) \<longleftrightarrow>
     ms \<noteq> [] \<and> t = \<lparr>trigger_type = ty, frequency = length ms, examples = ex, impact = lvl\<rparr>"
  by (auto simp: trigger_def)

lemma impact_lib:
  "t \<in> set (analyzePsychologicalTriggers s) \<Longrightarrow>
   impact t = impact_of (trigger_type t) (frequency t)"
  by (auto simp: analyzePsychologicalTriggers_eq Let_def trigger_mem impact_of_def threshold_def)

lemma impact_script:
  "t \<in> set (analyzePsychologicalTriggers_script ps) \<Longrightarrow>
   impact t = impact_of (trigger_type t) (frequency t)"
  by (auto simp: analyzePsychologicalTriggers_script_eq Let_def trigger_mem impact_of_def
      threshold_def)

lemma six_and_two:
  assumes "length (js_match gi fomoPatterns s) = 6"
    and "length (js_match gi reciprocityPatterns s) = 2"
  shows "\<lparr>trigger_type = ''FOMO (Fear of Missing Out)'', frequency = 6,
           examples = take 3 (js_match gi fomoPatterns s), impact = High\<rparr>
           \<in> set (analyzePsychologicalTriggers s)
       \<and> \<lparr>trigger_type = ''Reciprocity'', frequency = 2,
           examples = take 3 (js_match gi reciprocityPatterns s), impact = Low\<rparr>
           \<in> set (analyzePsychologicalTriggers s)"
proof -
  from assms have "js_match gi fomoPatterns s \<noteq> []" "js_match gi reciprocityPatterns s \<noteq> []"
    by auto
  with assms show ?thesis
    by (simp add: analyzePsychologicalTriggers_eq Let_def trigger_mem)
qed

lemma six_fomo_matches:
  "js_match gi fomoPatterns ''only 1 only 2 only 3 only 4 only 5 only 6 free gift'' =
     [''only 1'', ''only 2'', ''only 3'', ''only 4'', ''only 5'', ''only 6'']"
  by code_simp

lemma two_reciprocity_matches:
  "js_match gi reciprocityPatterns ''only 1 only 2 only 3 only 4 only 5 only 6 free gift'' =
     [''free'', ''gift'']"
  by code_simp

lemma script_exclusive_offer:
  "analyzePsychologicalTriggers_script [plainPost ''exclusive offer''] =
     [\<lparr>trigger_type = ''FOMO (Fear of Missing Out)'', frequency = 1, examples = [''exclusive''],
       impact = Medium\<rparr>]"
  by code_simp

text \<open>
  C2 as the specification states it: a trigger is high exactly when its frequency exceeds the
  threshold of its category. It fails for Reciprocity: three matches exceed its threshold of
  2, and the trigger is medium.
\<close>

theorem reciprocity_above_threshold_is_medium:
  "analyzePsychologicalTriggers ''free free free'' =
     [\<lparr>trigger_type = ''Reciprocity'', frequency = 3, examples = [''free'', ''free'', ''free''],
       impact = Medium\<rparr>]
   \<and> spec_impact ''Reciprocity'' 3 = High"
proof
  show "analyzePsychologicalTriggers ''free free free'' =
     [\<lparr>trigger_type = ''Reciprocity'', frequency = 3, examples = [''free'', ''free'', ''free''],
       impact = Medium\<rparr>]"
    by code_simp
  show "spec_impact ''Reciprocity'' 3 = High"
    by (simp add: spec_impact_def threshold_def)
qed

text \<open>The entry of a category, as the amended claim words it: none without a match;
  with a match, the entry whose frequency is the number of matches and whose impact is the
  one \<open>impact_of\<close> gives for that number.\<close>

definition entry :: "string \<Rightarrow> string list \<Rightarrow> string list \<Rightarrow> PsychologicalTrigger list" where
  "entry ty ms ex =
     (if ms = [] then []
      else [\<lparr>trigger_type = ty, frequency = length ms, examples = ex,
             impact = impact_of ty (length ms)\<rparr>])"

lemma entries_lib:
  "analyzePsychologicalTriggers s =
     concat (map (\<lambda>(ty, pat). entry ty (js_match gi pat s) (take 3 (js_match gi pat s)))
       triggerCategories)"
  by (simp add: analyzePsychologicalTriggers_eq Let_def trigger_def entry_def
      triggerCategories_def impact_of_def threshold_def)

lemma entries_script:
  "analyzePsychologicalTriggers_script ps =
     concat (map (\<lambda>(ty, pat).
                    entry ty (js_match gi pat (js_join '' '' (map cleanContent ps)))
                      (take 3 (from_Set (js_match gi pat (js_join '' '' (map cleanContent ps))))))
       triggerCategories_script)"
  by (simp add: analyzePsychologicalTriggers_script_eq Let_def trigger_def entry_def
      triggerCategories_script_def impact_of_def threshold_def)

lemma entry_emitted:
  assumes "(ty, pat) \<in> set cats" and "f pat \<noteq> []"
  shows "\<lparr>trigger_type = ty, frequency = length (f pat), examples = ex (f pat),
           impact = impact_of ty (length (f pat))\<rparr>
         \<in> set (concat (map (\<lambda>(ty, pat). entry ty (f pat) (ex (f pat))) cats))"
proof -
  from assms(2) have "\<lparr>trigger_type = ty, frequency = length (f pat), examples = ex (f pat),
           impact = impact_of ty (length (f pat))\<rparr> \<in> set (entry ty (f pat) (ex (f pat)))"
    by (simp add: entry_def)
  with assms(1) show ?thesis by (simp only: set_concat set_map) blast
qed

lemma emitted_lib:
  "(ty, pat) \<in> set triggerCategories \<Longrightarrow> js_match gi pat s \<noteq> [] \<Longrightarrow>
   \<lparr>trigger_type = ty, frequency = length (js_match gi pat s),
     examples = take 3 (js_match gi pat s),
     impact = impact_of ty (length (js_match gi pat s))\<rparr>
   \<in> set (analyzePsychologicalTriggers s)"
  unfolding entries_lib
  by (rule entry_emitted [of ty pat triggerCategories "\<lambda>pat. js_match gi pat s" "take 3"])

lemma emitted_script:
  "(ty, pat) \<in> set triggerCategories_script \<Longrightarrow>
   js_match gi pat (js_join '' '' (map cleanContent ps)) \<noteq> [] \<Longrightarrow>
   \<lparr>trigger_type = ty,
     frequency = length (js_match gi pat (js_join '' '' (map cleanContent ps))),
     examples = take 3 (from_Set (js_match gi pat (js_join '' '' (map cleanContent ps)))),
     impact = impact_of ty (length (js_match gi pat (js_join '' '' (map cleanContent ps))))\<rparr>
   \<in> set (analyzePsychologicalTriggers_script ps)"
  unfolding entries_script
  by (rule entry_emitted [of ty pat triggerCategories_script
        "\<lambda>pat. js_match gi pat (js_join '' '' (map cleanContent ps))" "\<lambda>ms. take 3 (from_Set ms)"])

lemma impact_of_High: "impact_of ty n = High \<longleftrightarrow> ty \<noteq> ''Reciprocity'' \<and> threshold ty < n"
  by (simp add: impact_of_def)

lemma impact_of_Low: "impact_of ty n = Low \<longleftrightarrow> ty = ''Reciprocity'' \<and> n \<le> 2"
  by (auto simp: impact_of_def threshold_def)

lemma thresholds:
  "map (\<lambda>(ty, pat). (ty, threshold ty)) triggerCategories =
     [(''FOMO (Fear of Missing Out)'', 5), (''Social Proof'', 3), (''Authority'', 4),
      (''Reciprocity'', 2)]"
  "map (\<lambda>(ty, pat). (ty, threshold ty)) triggerCategories_script =
     [(''FOMO (Fear of Missing Out)'', 5), (''Social Proof'', 3), (''Authority Building'', 4),
      (''Transformation Promise'', 6)]"
  by (simp_all add: triggerCategories_def triggerCategories_script_def threshold_def)

text \<open>
  C2 as amended: for every input and every trigger category, either extractor emits no
  entry when the category has no match, and otherwise exactly one entry, whose frequency is
  the number of matches of the category's pattern (in the script: in the posts' normalized
  contents joined by spaces) and whose impact follows from that number: for FOMO, Social
  Proof, Authority and Transformation Promise high exactly when it exceeds the threshold
  (5, 3, 4, 6) and medium otherwise; for Reciprocity medium when it exceeds 2 and low
  otherwise, never high. The entries come in the order of the categories. In particular a
  text with exactly 6 FOMO matches and 2 Reciprocity matches yields a FOMO trigger of
  frequency 6 and impact high and a Reciprocity trigger of frequency 2 and impact low.
\<close>

theorem trigger_impact_thresholds:
  "analyzePsychologicalTriggers s =
     concat (map (\<lambda>(ty, pat). entry ty (js_match gi pat s) (take 3 (js_match gi pat s)))
       triggerCategories)
   \<and> analyzePsychologicalTriggers_script ps =
     concat (map (\<lambda>(ty, pat).
                    entry ty (js_match gi pat (js_join '' '' (map cleanContent ps)))
                      (take 3 (from_Set (js_match gi pat (js_join '' '' (map cleanContent ps))))))
       triggerCategories_script)
   \<and> (\<forall>(ty, pat) \<in> set triggerCategories.
        js_match gi pat s \<noteq> [] \<longrightarrow>
        \<lparr>trigger_type = ty, frequency = length (js_match gi pat s),
          examples = take 3 (js_match gi pat s),
          impact = impact_of ty (length (js_match gi pat s))\<rparr>
        \<in> set (analyzePsychologicalTriggers s))
   \<and> (\<forall>(ty, pat) \<in> set triggerCategories_script.
        js_match gi pat (js_join '' '' (map cleanContent ps)) \<noteq> [] \<longrightarrow>
        \<lparr>trigger_type = ty,
          frequency = length (js_match gi pat (js_join '' '' (map cleanContent ps))),
          examples = take 3 (from_Set (js_match gi pat (js_join '' '' (map cleanContent ps)))),
          impact = impact_of ty (length (js_match gi pat (js_join '' '' (map cleanContent ps))))\<rparr>
        \<in> set (analyzePsychologicalTriggers_script ps))
   \<and> (\<forall>t \<in> set (analyzePsychologicalTriggers s).
        impact t = impact_of (trigger_type t) (frequency t))
   \<and> (\<forall>t \<in> set (analyzePsychologicalTriggers_script ps).
        impact t = impact_of (trigger_type t) (frequency t))
   \<and> (impact_of ty n = High \<longleftrightarrow> ty \<noteq> ''Reciprocity'' \<and> threshold ty < n)
   \<and> (impact_of ty n = Low \<longleftrightarrow> ty = ''Reciprocity'' \<and> n \<le> 2)
   \<and> map (\<lambda>(ty, pat). (ty, threshold ty)) triggerCategories =
        [(''FOMO (Fear of Missing Out)'', 5), (''Social Proof'', 3), (''Authority'', 4),
         (''Reciprocity'', 2)]
   \<and> map (\<lambda>(ty, pat). (ty, threshold ty)) triggerCategories_script =
        [(''FOMO (Fear of Missing Out)'', 5), (''Social Proof'', 3), (''Authority Building'', 4),
         (''Transformation Promise'', 6)]
   \<and> (length (js_match gi fomoPatterns s) = 6 \<and> length (js_match gi reciprocityPatterns s) = 2
      \<longrightarrow> \<lparr>trigger_type = ''FOMO (Fear of Missing Out)'', frequency = 6,
             examples = take 3 (js_match gi fomoPatterns s), impact = High\<rparr>
             \<in> set (analyzePsychologicalTriggers s)
          \<and> \<lparr>trigger_type = ''Reciprocity'', frequency = 2,
             examples = take 3 (js_match gi reciprocityPatterns s), impact = Low\<rparr>
             \<in> set (analyzePsychologicalTriggers s))"
proof -
  have 3: "\<forall>(ty, pat) \<in> set triggerCategories.
        js_match gi pat s \<noteq> [] \<longrightarrow>
        \<lparr>trigger_type = ty, frequency = length (js_match gi pat s),
          examples = take 3 (js_match gi pat s),
          impact = impact_of ty (length (js_match gi pat s))\<rparr>
        \<in> set (analyzePsychologicalTriggers s)"
    using emitted_lib [of _ _ s] by blast
  have 4: "\<forall>(ty, pat) \<in> set triggerCategories_script.
        js_match gi pat (js_join '' '' (map cleanContent ps)) \<noteq> [] \<longrightarrow>
        \<lparr>trigger_type = ty,
          frequency = length (js_match gi pat (js_join '' '' (map cleanContent ps))),
          examples = take 3 (from_Set (js_match gi pat (js_join '' '' (map cleanContent ps)))),
          impact = impact_of ty (length (js_match gi pat (js_join '' '' (map cleanContent ps))))\<rparr>
        \<in> set (analyzePsychologicalTriggers_script ps)"
    using emitted_script [of _ _ ps] by blast
  have 5: "\<forall>t \<in> set (analyzePsychologicalTriggers s).
        impact t = impact_of (trigger_type t) (frequency t)"
    using impact_lib [of _ s] by blast
  have 6: "\<forall>t \<in> set (analyzePsychologicalTriggers_script ps).
        impact t = impact_of (trigger_type t) (frequency t)"
    using impact_script [of _ ps] by blast
  have 7: "length (js_match gi fomoPatterns s) = 6 \<and> length (js_match gi reciprocityPatterns s) = 2
      \<longrightarrow> \<lparr>trigger_type = ''FOMO (Fear of Missing Out)'', frequency = 6,
             examples = take 3 (js_match gi fomoPatterns s), impact = High\<rparr>
             \<in> set (analyzePsychologicalTriggers s)
          \<and> \<lparr>trigger_type = ''Reciprocity'', frequency = 2,
             examples = take 3 (js_match gi reciprocityPatterns s), impact = Low\<rparr>
             \<in> set (analyzePsychologicalTriggers s)"
    using six_and_two [of s] by blast
  from entries_lib [of s] entries_script [of ps] 3 4 5 6 impact_of_High [of ty n]
    impact_of_Low [of ty n] thresholds 7
  show ?thesis by (intro conjI)
qed

lemma unlock_twice_matches:
  "js_match gi transformPatterns_script ''Unlock it, unlock it'' = [''Unlock'', ''unlock'']"
  by code_simp

lemma unlock_twice_others:
  "js_match gi fomoPatterns_script ''Unlock it, unlock it'' = []"
  "js_match gi socialPatterns_script ''Unlock it, unlock it'' = []"
  "js_match gi authorityPatterns_script ''Unlock it, unlock it'' = []"
  by code_simp+

lemma six_and_two_others:
  "js_match gi socialProofPatterns ''only 1 only 2 only 3 only 4 only 5 only 6 free gift'' = []"
  "js_match gi authorityPatterns ''only 1 only 2 only 3 only 4 only 5 only 6 free gift'' = []"
  by code_simp+

lemma from_Set_unlock: "from_Set [''Unlock'', ''unlock''] = [''Unlock'', ''unlock'']"
  by code_simp

theorem trigger_impact_thresholds_witness:
  "analyzePsychologicalTriggers ''only 1 only 2 only 3 only 4 only 5 only 6 free gift'' =
     [\<lparr>trigger_type = ''FOMO (Fear of Missing Out)'', frequency = 6,
       examples = [''only 1'', ''only 2'', ''only 3''], impact = High\<rparr>,
      \<lparr>trigger_type = ''Reciprocity'', frequency = 2, examples = [''free'', ''gift''],
       impact = Low\<rparr>]
   \<and> analyzePsychologicalTriggers_script [plainPost ''Unlock it, unlock it''] =
     [\<lparr>trigger_type = ''Transformation Promise'', frequency = 2,
       examples = [''Unlock'', ''unlock''], impact = Medium\<rparr>]
   \<and> \<lparr>trigger_type = ''Reciprocity'', frequency = 2, examples = [''free'', ''gift''],
       impact = Low\<rparr>
     \<in> set (analyzePsychologicalTriggers ''only 1 only 2 only 3 only 4 only 5 only 6 free gift'')
   \<and> \<lparr>trigger_type = ''Transformation Promise'', frequency = 2,
       examples = [''Unlock'', ''unlock''], impact = Medium\<rparr>
     \<in> set (analyzePsychologicalTriggers_script [plainPost ''Unlock it, unlock it''])
   \<and> impact_of ''FOMO (Fear of Missing Out)'' 6 = High
   \<and> impact_of ''Transformation Promise'' 2 = Medium"
proof -
  let ?s = "''only 1 only 2 only 3 only 4 only 5 only 6 free gift''"
  let ?ps = "[plainPost ''Unlock it, unlock it'']"
  let ?fomo = "\<lparr>trigger_type = ''FOMO (Fear of Missing Out)'', frequency = 6,
     examples = [''only 1'', ''only 2'', ''only 3''], impact = High\<rparr>"
  let ?recip = "\<lparr>trigger_type = ''Reciprocity'', frequency = 2, examples = [''free'', ''gift''],
     impact = Low\<rparr>"
  let ?unlock = "\<lparr>trigger_type = ''Transformation Promise'', frequency = 2,
     examples = [''Unlock'', ''unlock''], impact = Medium\<rparr>"
  note inst = trigger_impact_thresholds [of ?s ?ps]
  note lib = inst [THEN conjunct1]
  note script = inst [THEN conjunct2, THEN conjunct1]
  note emitted = inst [THEN conjunct2, THEN conjunct2, THEN conjunct2, THEN conjunct1]
  note particular = inst [THEN conjunct2, THEN conjunct2, THEN conjunct2, THEN conjunct2,
    THEN conjunct2, THEN conjunct2, THEN conjunct2, THEN conjunct2, THEN conjunct2,
    THEN conjunct2]
  have hi: "impact_of ''FOMO (Fear of Missing Out)'' 6 = High"
    and me: "impact_of ''Transformation Promise'' 2 = Medium"
    by (simp_all add: impact_of_def threshold_def)
  from lib have a: "analyzePsychologicalTriggers ?s = [?fomo, ?recip]"
    by (simp add: triggerCategories_def entry_def six_fomo_matches two_reciprocity_matches
        six_and_two_others impact_of_def threshold_def)
  from script have b: "analyzePsychologicalTriggers_script ?ps = [?unlock]"
    by (simp add: triggerCategories_script_def entry_def plainPost_def unlock_twice_matches
        unlock_twice_others from_Set_unlock impact_of_def threshold_def)
  have six: "length (js_match gi fomoPatterns ?s) = 6"
    and two: "length (js_match gi reciprocityPatterns ?s) = 2"
    by (simp_all add: six_fomo_matches two_reciprocity_matches)
  from particular six two
  have "\<lparr>trigger_type = ''Reciprocity'', frequency = 2,
          examples = take 3 (js_match gi reciprocityPatterns ?s), impact = Low\<rparr>
        \<in> set (analyzePsychologicalTriggers ?s)"
    by blast
  then have c: "?recip \<in> set (analyzePsychologicalTriggers ?s)"
    by (simp add: two_reciprocity_matches)
  have cat: "(''Transformation Promise'', transformPatterns_script) \<in> set triggerCategories_script"
    by (simp add: triggerCategories_script_def)
  have ne: "js_match gi transformPatterns_script (js_join '' '' (map cleanContent ?ps)) \<noteq> []"
    by (simp add: plainPost_def unlock_twice_matches)
  from emitted cat ne
  have "\<lparr>trigger_type = ''Transformation Promise'',
          frequency = length (js_match gi transformPatterns_script (js_join '' '' (map cleanContent ?ps))),
          examples = take 3 (from_Set (js_match gi transformPatterns_script
            (js_join '' '' (map cleanContent ?ps)))),
          impact = impact_of ''Transformation Promise''
            (length (js_match gi transformPatterns_script (js_join '' '' (map cleanContent ?ps))))\<rparr>
        \<in> set (analyzePsychologicalTriggers_script ?ps)"
    by blast
  then have d: "?unlock \<in> set (analyzePsychologicalTriggers_script ?ps)"
    by (simp add: plainPost_def unlock_twice_matches from_Set_unlock impact_of_def threshold_def
        numeral_2_eq_2)
  from a b c d hi me show ?thesis by (intro conjI)
qed


lemma frequency_lib: "t \<in> set (analyzePsychologicalTriggers s) \<Longrightarrow> 0 < frequency t"
  by (auto simp: analyzePsychologicalTriggers_eq Let_def trigger_mem)

lemma frequency_script: "t \<in> set (analyzePsychologicalTriggers_script ps) \<Longrightarrow> 0 < frequency t"
  by (auto simp: analyzePsychologicalTriggers_script_eq Let_def trigger_mem)

lemma trigger_type_mem:
  "ty' \<in> trigger_type ` set (trigger ty ms ex lvl) \<longleftrightarrow> ms \<noteq> [] \<and> ty' = ty"
  by (auto simp: trigger_def)

lemma omitted_lib:
  "(ty, pat) \<in> set triggerCategories \<Longrightarrow> js_match gi pat s = [] \<Longrightarrow>
   ty \<notin> trigger_type ` set (analyzePsychologicalTriggers s)"
  by (auto simp: triggerCategories_def analyzePsychologicalTriggers_eq Let_def image_Un
      trigger_type_mem)

lemma omitted_script:
  "(ty, pat) \<in> set triggerCategories_script \<Longrightarrow>
   js_match gi pat (js_join '' '' (map cleanContent ps)) = [] \<Longrightarrow>
   ty \<notin> trigger_type ` set (analyzePsychologicalTriggers_script ps)"
  by (auto simp: triggerCategories_script_def analyzePsychologicalTriggers_script_eq Let_def
      image_Un trigger_type_mem)

lemma free_gift_triggers:
  "analyzePsychologicalTriggers ''free gift'' =
     [\<lparr>trigger_type = ''Reciprocity'', frequency = 2, examples = [''free'', ''gift''],
       impact = Low\<rparr>]"
  by code_simp

lemma free_gift_no_social_proof: "js_match gi socialProofPatterns ''free gift'' = []"
  by code_simp

lemma exclusive_offer_no_social_proof:
  "js_match gi socialPatterns_script (js_join '' '' (map cleanContent [plainPost ''exclusive offer'']))
     = []"
  by code_simp

text \<open>
  C4: for every input, a trigger category whose pattern has no match in the text has no
  entry in the list either extractor returns, and no entry has frequency zero; in particular
  a text without a Social Proof match yields no Social Proof entry.
\<close>

theorem zero_match_category_omitted:
  "(\<forall>t \<in> set (analyzePsychologicalTriggers s). 0 < frequency t)
   \<and> (\<forall>t \<in> set (analyzePsychologicalTriggers_script ps). 0 < frequency t)
   \<and> (\<forall>(ty, pat) \<in> set triggerCategories.
        js_match gi pat s = [] \<longrightarrow> ty \<notin> trigger_type ` set (analyzePsychologicalTriggers s))
   \<and> (\<forall>(ty, pat) \<in> set triggerCategories_script.
        js_match gi pat (js_join '' '' (map cleanContent ps)) = []
        \<longrightarrow> ty \<notin> trigger_type ` set (analyzePsychologicalTriggers_script ps))"
  using frequency_lib [of _ s] frequency_script [of _ ps] omitted_lib [of _ _ s]
    omitted_script [of _ _ ps]
  by blast

theorem zero_match_category_omitted_witness:
  "''Social Proof'' \<notin> trigger_type ` set (analyzePsychologicalTriggers ''free gift'')
   \<and> ''Social Proof''
       \<notin> trigger_type ` set (analyzePsychologicalTriggers_script [plainPost ''exclusive offer''])
   \<and> 0 < frequency (hd (analyzePsychologicalTriggers ''free gift''))
   \<and> 0 < frequency (hd (analyzePsychologicalTriggers_script [plainPost ''exclusive offer'']))"
proof -
  note inst = zero_match_category_omitted [of "''free gift''" "[plainPost ''exclusive offer'']"]
  have c1: "(''Social Proof'', socialProofPatterns) \<in> set triggerCategories"
    by (simp add: triggerCategories_def)
  have c2: "(''Social Proof'', socialPatterns_script) \<in> set triggerCategories_script"
    by (simp add: triggerCategories_script_def)
  from inst c1 free_gift_no_social_proof
  have a: "''Social Proof'' \<notin> trigger_type ` set (analyzePsychologicalTriggers ''free gift'')"
    by blast
  from inst c2 exclusive_offer_no_social_proof
  have b: "''Social Proof''
       \<notin> trigger_type ` set (analyzePsychologicalTriggers_script [plainPost ''exclusive offer''])"
    by blast
  have "hd (analyzePsychologicalTriggers ''free gift'')
      \<in> set (analyzePsychologicalTriggers ''free gift'')"
    by (simp add: free_gift_triggers)
  with inst have c: "0 < frequency (hd (analyzePsychologicalTriggers ''free gift''))"
    by blast
  have "hd (analyzePsychologicalTriggers_script [plainPost ''exclusive offer''])
      \<in> set (analyzePsychologicalTriggers_script [plainPost ''exclusive offer''])"
    by (simp add: script_exclusive_offer)
  with inst
  have d: "0 < frequency (hd (analyzePsychologicalTriggers_script [plainPost ''exclusive offer'']))"
    by blast
  from a b c d show ?thesis by simp
qed

lemma distinct_set_add: "distinct acc \<Longrightarrow> distinct (set_add acc x)"
  by (simp add: set_add_def)

lemma distinct_foldl_set_add: "distinct acc \<Longrightarrow> distinct (foldl set_add acc xs)"
  by (induction xs arbitrary: acc) (simp_all add: distinct_set_add)

lemma distinct_from_Set: "distinct (from_Set xs)"
  by (simp add: from_Set_def distinct_foldl_set_add)

lemma set_foldl_set_add: "set (foldl set_add acc xs) = set acc \<union> set xs"
  by (induction xs arbitrary: acc) (auto simp: set_add_def)

lemma set_from_Set: "set (from_Set xs) = set xs"
  by (simp add: from_Set_def set_foldl_set_add)

text \<open>The batch script removes the repetitions before it takes three examples.\<close>

lemma script_examples_distinct:
  "t \<in> set (analyzePsychologicalTriggers_script ps) \<Longrightarrow>
   length (examples t) \<le> 3 \<and> distinct (examples t)"
  by (auto simp: analyzePsychologicalTriggers_script_eq Let_def trigger_mem distinct_from_Set)

text \<open>
  C5: the examples of a trigger are at most three pairwise distinct matched substrings, in
  the order of their first occurrence. The batch script does that (\<open>new Set\<close> before
  \<open>slice\<close>); the analyzer of the library takes the first three matches as they come, so on
  \<open>free free\<close> its examples repeat \<open>free\<close>.
\<close>

theorem library_examples_repeat:
  "map examples (analyzePsychologicalTriggers ''free free'') = [[''free'', ''free'']]"
  by code_simp


section \<open>C7: the emotional word counts and letter case\<close>

text \<open>Two texts that differ at most in the case of their letters, code unit by code unit:
  the same code units once every letter is folded (a to z, and the letters of the upper
  half that have a case pair).\<close>

definition same_letters :: "string \<Rightarrow> string \<Rightarrow> bool" where
  "same_letters s t = (map canonicalize s = map canonicalize t)"

text \<open>A regular expression without a literal character matches the same way with and
  without the \<open>i\<close> flag.\<close>

fun caseblind_cls :: "cls \<Rightarrow> bool" where
  "caseblind_cls (AnyOf ps) = (ps = [])"
| "caseblind_cls k = True"

fun caseblind :: "rx \<Rightarrow> bool" where
  "caseblind (Lit w) = (w = [])"
| "caseblind (In k) = caseblind_cls k"
| "caseblind (NotIn k) = caseblind_cls k"
| "caseblind Bol = True"
| "caseblind Eol = True"
| "caseblind WordB = True"
| "caseblind (Seq a b) = (caseblind a \<and> caseblind b)"
| "caseblind (Alt a b) = (caseblind a \<and> caseblind b)"
| "caseblind (Star a) = caseblind a"
| "caseblind (Lazy a) = caseblind a"

lemma canonicalize_cases:
  "canonicalize c = c
   \<or> (c \<in> set ''abcdefghijklmnopqrstuvwxyz''
        \<and> canonicalize c \<in> set ''ABCDEFGHIJKLMNOPQRSTUVWXYZ'')
   \<or> (c \<in> set latin1_lower \<and> canonicalize c \<in> set latin1_upper)"
proof (cases "map_of (zip (''abcdefghijklmnopqrstuvwxyz'' @ latin1_lower)
                          (''ABCDEFGHIJKLMNOPQRSTUVWXYZ'' @ latin1_upper)) c")
  case None
  then have "canonicalize c = c" by (simp only: canonicalize_def option.case)
  then show ?thesis by (rule disjI1)
next
  case (Some u)
  have split: "zip (''abcdefghijklmnopqrstuvwxyz'' @ latin1_lower)
                   (''ABCDEFGHIJKLMNOPQRSTUVWXYZ'' @ latin1_upper)
      = zip ''abcdefghijklmnopqrstuvwxyz'' ''ABCDEFGHIJKLMNOPQRSTUVWXYZ''
        @ zip latin1_lower latin1_upper"
    by (rule zip_append) simp
  from Some have "(c, u) \<in> set (zip (''abcdefghijklmnopqrstuvwxyz'' @ latin1_lower)
                                    (''ABCDEFGHIJKLMNOPQRSTUVWXYZ'' @ latin1_upper))"
    by (rule map_of_SomeD)
  then have "(c, u) \<in> set (zip ''abcdefghijklmnopqrstuvwxyz'' ''ABCDEFGHIJKLMNOPQRSTUVWXYZ'')
      \<or> (c, u) \<in> set (zip latin1_lower latin1_upper)"
    by (simp only: split set_append Un_iff)
  then consider
      "(c, u) \<in> set (zip ''abcdefghijklmnopqrstuvwxyz'' ''ABCDEFGHIJKLMNOPQRSTUVWXYZ'')"
    | "(c, u) \<in> set (zip latin1_lower latin1_upper)"
    by (rule disjE)
  then have "(c \<in> set ''abcdefghijklmnopqrstuvwxyz'' \<and> u \<in> set ''ABCDEFGHIJKLMNOPQRSTUVWXYZ'')
      \<or> (c \<in> set latin1_lower \<and> u \<in> set latin1_upper)"
  proof cases
    case 1
    then have "c \<in> set ''abcdefghijklmnopqrstuvwxyz''" "u \<in> set ''ABCDEFGHIJKLMNOPQRSTUVWXYZ''"
      by (rule set_zip_leftD, rule set_zip_rightD)
    then show ?thesis by blast
  next
    case 2
    then have "c \<in> set latin1_lower" "u \<in> set latin1_upper"
      by (rule set_zip_leftD, rule set_zip_rightD)
    then show ?thesis by blast
  qed
  moreover have "canonicalize c = u" using Some by (simp only: canonicalize_def option.case)
  ultimately show ?thesis by blast
qed

lemma lower_classes:
  assumes "c \<in> set ''abcdefghijklmnopqrstuvwxyz''"
  shows "\<not> isDigit c" "\<not> isWhiteSpace c" "\<not> isLineTerminator c" "isWordChar c"
  using assms unfolding isDigit_def isWhiteSpace_def isLineTerminator_def isWordChar_def
  by auto

lemma upper_classes:
  assumes "c \<in> set ''ABCDEFGHIJKLMNOPQRSTUVWXYZ''"
  shows "\<not> isDigit c" "\<not> isWhiteSpace c" "\<not> isLineTerminator c" "isWordChar c"
  using assms unfolding isDigit_def isWhiteSpace_def isLineTerminator_def isWordChar_def
  by auto

lemma latin1_lower_classes:
  assumes "c \<in> set latin1_lower"
  shows "\<not> isDigit c" "\<not> isWhiteSpace c" "\<not> isLineTerminator c" "\<not> isWordChar c"
  using assms
  unfolding latin1_lower_def isDigit_def isWhiteSpace_def isLineTerminator_def isWordChar_def
  by auto

lemma latin1_upper_classes:
  assumes "c \<in> set latin1_upper"
  shows "\<not> isDigit c" "\<not> isWhiteSpace c" "\<not> isLineTerminator c" "\<not> isWordChar c"
  using assms
  unfolding latin1_upper_def isDigit_def isWhiteSpace_def isLineTerminator_def isWordChar_def
  by auto

lemma class_canonicalize:
  "isDigit (canonicalize c) = isDigit c"
  "isWhiteSpace (canonicalize c) = isWhiteSpace c"
  "isLineTerminator (canonicalize c) = isLineTerminator c"
  "isWordChar (canonicalize c) = isWordChar c"
proof -
  consider "canonicalize c = c"
    | "c \<in> set ''abcdefghijklmnopqrstuvwxyz''" "canonicalize c \<in> set ''ABCDEFGHIJKLMNOPQRSTUVWXYZ''"
    | "c \<in> set latin1_lower" "canonicalize c \<in> set latin1_upper"
    using canonicalize_cases [of c] by blast
  then have "isDigit (canonicalize c) = isDigit c \<and> isWhiteSpace (canonicalize c) = isWhiteSpace c
    \<and> isLineTerminator (canonicalize c) = isLineTerminator c
    \<and> isWordChar (canonicalize c) = isWordChar c"
  proof cases
    case 1
    then show ?thesis by (simp only:)
  next
    case 2
    from lower_classes [OF 2(1)] upper_classes [OF 2(2)] show ?thesis by blast
  next
    case 3
    from latin1_lower_classes [OF 3(1)] latin1_upper_classes [OF 3(2)] show ?thesis by blast
  qed
  then show "isDigit (canonicalize c) = isDigit c"
    "isWhiteSpace (canonicalize c) = isWhiteSpace c"
    "isLineTerminator (canonicalize c) = isLineTerminator c"
    "isWordChar (canonicalize c) = isWordChar c"
    by blast+
qed

lemma class_same_letter:
  assumes "canonicalize c = canonicalize d"
  shows "isDigit c = isDigit d" "isWhiteSpace c = isWhiteSpace d"
    "isLineTerminator c = isLineTerminator d" "isWordChar c = isWordChar d"
  using assms class_canonicalize [of c] class_canonicalize [of d] by metis+

lemma cls_mem_same_letter:
  assumes "ignoreCase fl \<or> caseblind_cls k" "canonicalize c = canonicalize d"
  shows "cls_mem fl k c = cls_mem fl k d"
proof (cases k)
  case Digit
  then show ?thesis using class_same_letter(1) [OF assms(2)] by simp
next
  case Space
  then show ?thesis using class_same_letter(2) [OF assms(2)] by simp
next
  case Dot
  then show ?thesis using class_same_letter(3) [OF assms(2)] by simp
next
  case (AnyOf ps)
  show ?thesis
  proof (cases "ignoreCase fl")
    case True
    with AnyOf assms(2) show ?thesis by (simp add: ceq_def list_ex_iff)
  next
    case False
    with AnyOf assms(1) have "ps = []" by simp
    with AnyOf show ?thesis by simp
  qed
qed

lemma same_letters_length: "same_letters s t \<Longrightarrow> length s = length t"
  unfolding same_letters_def by (rule map_eq_imp_length_eq)

lemma same_letters_nth:
  "same_letters s t \<Longrightarrow> i < length s \<Longrightarrow> canonicalize (s ! i) = canonicalize (t ! i)"
  unfolding same_letters_def by (metis length_map nth_map)

lemma lit_at_same_letters:
  assumes "same_letters s t" "ignoreCase fl \<or> w = []"
  shows "lit_at fl w s i = lit_at fl w t i"
proof (cases "ignoreCase fl")
  case True
  have rel: "list_all2 (\<lambda>c p. canonicalize c = canonicalize p) xs ys
      = (map canonicalize xs = map canonicalize ys)" for xs ys
  proof (induction xs arbitrary: ys)
    case Nil
    show ?case by simp
  next
    case (Cons x xs)
    then show ?case by (cases ys) auto
  qed
  have "lit_at fl w u i = (take (length w) (drop i (map canonicalize u)) = map canonicalize w)" for u
  proof -
    have "ceq fl = (\<lambda>c p. canonicalize c = canonicalize p)"
      using True by (intro ext) (simp add: ceq_def)
    then show ?thesis by (simp add: lit_at_def rel take_map drop_map)
  qed
  with assms(1) show ?thesis by (simp add: same_letters_def)
next
  case False
  with assms(2) have "w = []" by simp
  then show ?thesis by (simp add: lit_at_def)
qed

lemma word_at_same_letters: "same_letters s t \<Longrightarrow> word_at s i = word_at t i"
  using same_letters_length [of s t] same_letters_nth [of s t i]
  by (auto simp: word_at_def dest: class_same_letter(4))

lemma at_wordb_same_letters: "same_letters s t \<Longrightarrow> at_wordb s i = at_wordb t i"
  by (simp add: at_wordb_def word_at_same_letters)

lemma at_bol_same_letters:
  assumes "same_letters s t"
  shows "at_bol fl s i = at_bol fl t i"
proof (cases "0 < i \<and> i \<le> length s")
  case True
  then have "i - 1 < length s" by arith
  then have "isLineTerminator (s ! (i - 1)) = isLineTerminator (t ! (i - 1))"
    using same_letters_nth [OF assms] by (intro class_same_letter(3)) simp
  then show ?thesis using same_letters_length [OF assms] by (simp add: at_bol_def)
next
  case False
  then show ?thesis using same_letters_length [OF assms] by (auto simp: at_bol_def)
qed

lemma at_eol_same_letters: "same_letters s t \<Longrightarrow> at_eol fl s i = at_eol fl t i"
  using same_letters_length [of s t] same_letters_nth [of s t i]
  by (auto simp: at_eol_def dest: class_same_letter(3))

text \<open>The matcher finds the same matches in two such texts, for an \<open>i\<close>-flagged regular
  expression and for one without a literal character.\<close>

lemma rmatch_same_letters:
  "same_letters s t \<Longrightarrow> ignoreCase fl \<or> caseblind r \<Longrightarrow> rmatch fl s r i = rmatch fl t r i"
proof (induction fl s r i rule: rmatch.induct)
  case (1 fl s w i)
  then show ?case by (simp add: lit_at_same_letters [of s t])
next
  case (2 fl s c i)
  then show ?case
    using same_letters_length [of s t] same_letters_nth [of s t i]
      cls_mem_same_letter [of fl c "s ! i" "t ! i"] by auto
next
  case (3 fl s c i)
  then show ?case
    using same_letters_length [of s t] same_letters_nth [of s t i]
      cls_mem_same_letter [of fl c "s ! i" "t ! i"] by auto
next
  case (4 fl s i)
  then show ?case by (simp add: at_bol_same_letters [of s t])
next
  case (5 fl s i)
  then show ?case by (simp add: at_eol_same_letters [of s t])
next
  case (6 fl s i)
  then show ?case by (simp add: at_wordb_same_letters [of s t])
next
  case (7 fl s a b i)
  from "7.prems"(2) have ca: "ignoreCase fl \<or> caseblind a" and cb: "ignoreCase fl \<or> caseblind b"
    by auto
  have eq: "rmatch fl s a i = rmatch fl t a i"
    using "7.IH"(1) "7.prems"(1) ca by simp
  have "map (rmatch fl s b) (rmatch fl s a i) = map (rmatch fl t b) (rmatch fl s a i)"
    using "7.IH"(2) "7.prems"(1) cb by (intro map_cong refl) auto
  then have "concat (map (rmatch fl s b) (rmatch fl s a i))
      = concat (map (rmatch fl t b) (rmatch fl t a i))"
    by (simp only: eq)
  then show ?case by (simp only: rmatch.simps(7))
next
  case (8 fl s a b i)
  from "8.prems"(2) have ca: "ignoreCase fl \<or> caseblind a" and cb: "ignoreCase fl \<or> caseblind b"
    by auto
  from "8.IH"(1) [OF "8.prems"(1) ca] "8.IH"(2) [OF "8.prems"(1) cb] show ?case by simp
next
  case (9 fl s a i)
  let ?js = "filter (\<lambda>j. i < j \<and> j \<le> length s) (rmatch fl s a i)"
  from "9.prems"(2) have ca: "ignoreCase fl \<or> caseblind a"
    and cs: "ignoreCase fl \<or> caseblind (Star a)" by auto
  have len: "length s = length t" using "9.prems"(1) by (rule same_letters_length)
  have eq: "rmatch fl s a i = rmatch fl t a i"
    using "9.IH"(1) "9.prems"(1) ca by simp
  have "map (rmatch fl s (Star a)) ?js = map (rmatch fl t (Star a)) ?js"
    using "9.IH"(2) "9.prems"(1) cs by (intro map_cong refl) auto
  then have "concat (map (rmatch fl s (Star a)) ?js) @ [i]
      = concat (map (rmatch fl t (Star a))
          (filter (\<lambda>j. i < j \<and> j \<le> length t) (rmatch fl t a i))) @ [i]"
    by (simp only: eq len)
  then show ?case by (simp only: rmatch.simps(9) [symmetric])
next
  case (10 fl s a i)
  let ?js = "filter (\<lambda>j. i < j \<and> j \<le> length s) (rmatch fl s a i)"
  from "10.prems"(2) have ca: "ignoreCase fl \<or> caseblind a"
    and cs: "ignoreCase fl \<or> caseblind (Lazy a)" by auto
  have len: "length s = length t" using "10.prems"(1) by (rule same_letters_length)
  have eq: "rmatch fl s a i = rmatch fl t a i"
    using "10.IH"(1) "10.prems"(1) ca by simp
  have "map (rmatch fl s (Lazy a)) ?js = map (rmatch fl t (Lazy a)) ?js"
    using "10.IH"(2) "10.prems"(1) cs by (intro map_cong refl) auto
  then have "i # concat (map (rmatch fl s (Lazy a)) ?js)
      = i # concat (map (rmatch fl t (Lazy a))
          (filter (\<lambda>j. i < j \<and> j \<le> length t) (rmatch fl t a i)))"
    by (simp only: eq len)
  then show ?case by (simp only: rmatch.simps(10) [symmetric])
qed

lemma exec_at_same_letters:
  "same_letters s t \<Longrightarrow> ignoreCase fl \<or> caseblind r \<Longrightarrow> exec_at fl r s q = exec_at fl r t q"
  by (simp add: exec_at_def rmatch_same_letters [of s t])

lemma scan_same_letters:
  "same_letters s t \<Longrightarrow> ignoreCase fl \<or> caseblind r \<Longrightarrow> scan fl r s q = scan fl r t q"
proof (induction fl r s q rule: scan.induct)
  case (1 fl r s q)
  have len: "length s = length t" using "1.prems"(1) by (rule same_letters_length)
  have ex: "exec_at fl r s q = exec_at fl r t q"
    using "1.prems" by (rule exec_at_same_letters)
  show ?case
  proof (cases "length s < q")
    case True
    then show ?thesis using len by (simp add: scan_past)
  next
    case False
    show ?thesis
    proof (cases "exec_at fl r s q")
      case None
      then have nt: "exec_at fl r t q = None" using ex by simp
      have "scan fl r s q = scan fl r s (Suc q)" using False None by (intro scan_None) auto
      moreover have "scan fl r t q = scan fl r t (Suc q)"
        using False len nt by (intro scan_None) auto
      ultimately show ?thesis using "1.IH"(1) [OF False None "1.prems"] by simp
    next
      case (Some e)
      then have st: "exec_at fl r t q = Some e" using ex by simp
      have "scan fl r s q = (q, e) # scan fl r s (if e = q then Suc q else e)"
        using False Some by (intro scan_Some) auto
      moreover have "scan fl r t q = (q, e) # scan fl r t (if e = q then Suc q else e)"
        using False len st by (intro scan_Some) auto
      ultimately show ?thesis using "1.IH"(2) [OF False Some "1.prems"] by simp
    qed
  qed
qed

lemma match_count_same_letters:
  "same_letters s t \<Longrightarrow> length (js_match gi r s) = length (js_match gi r t)"
  by (simp add: js_match_def scan_same_letters [of s t] gi_def)

text \<open>\<open>split\<close> cuts two such texts at the same places.\<close>

lemma split_loop_same_letters:
  "same_letters s t \<Longrightarrow> ignoreCase fl \<or> caseblind r \<Longrightarrow>
   length (split_loop fl r s p q) = length (split_loop fl r t p q)"
proof (induction fl r s p q rule: split_loop.induct)
  case (1 fl r s p q)
  have len: "length s = length t" using "1.prems"(1) by (rule same_letters_length)
  have ex: "exec_at fl r s q = exec_at fl r t q"
    using "1.prems" by (rule exec_at_same_letters)
  note us = split_loop.simps [of fl r s p q] and ut = split_loop.simps [of fl r t p q]
  show ?case
  proof (cases "length s \<le> q")
    case True
    then show ?thesis using len by (simp add: us ut)
  next
    case False
    show ?thesis
    proof (cases "exec_at fl r s q")
      case None
      with False len ex "1.IH"(1) [OF False None "1.prems"] show ?thesis
        by (simp add: us ut)
    next
      case (Some e)
      then have st: "exec_at fl r t q = Some e" using ex by simp
      have us': "split_loop fl r s p q =
          (if e = p then split_loop fl r s p (Suc q)
           else substring s p q # split_loop fl r s e e)"
        using False Some by (simp add: us)
      have ut': "split_loop fl r t p q =
          (if e = p then split_loop fl r t p (Suc q)
           else substring t p q # split_loop fl r t e e)"
        using False len st by (simp add: ut)
      show ?thesis
      proof (cases "e = p")
        case True
        from "1.IH"(2) [OF False Some True "1.prems"] True show ?thesis
          by (simp add: us' ut')
      next
        case ne: False
        from "1.IH"(3) [OF False Some ne "1.prems"] ne show ?thesis
          by (simp add: us' ut')
      qed
    qed
  qed
qed

lemma split_count_same_letters:
  assumes "same_letters s t" "ignoreCase fl \<or> caseblind r"
  shows "length (js_split fl r s) = length (js_split fl r t)"
proof -
  from assms(1) have "length s = length t" by (rule same_letters_length)
  then have "(s = []) = (t = [])" by auto
  with exec_at_same_letters [OF assms, of 0] split_loop_same_letters [OF assms, of 0 0]
  show ?thesis by (auto simp: js_split_def)
qed

lemma word_count_same_letters:
  "same_letters s t \<Longrightarrow> length (js_split g whitespace s) = length (js_split g whitespace t)"
  by (rule split_count_same_letters) (simp_all add: whitespace_def Plus_def)

lemma counts_same_letters:
  assumes "same_letters s t"
  shows "length (positiveWords s) = length (positiveWords t)"
    and "length (negativeWords s) = length (negativeWords t)"
    and "positiveWords_script s = positiveWords_script t"
    and "negativeWords_script s = negativeWords_script t"
  using match_count_same_letters [OF assms]
  by (simp_all add: positiveWords_def negativeWords_def positiveWords_script_def
      negativeWords_script_def)

text \<open>The emotional tone depends on the text through the counts only: in the library
  through the two counts, in the script through the two counts and the number of words.\<close>

lemma emotionalTone_by_counts:
  assumes "length (positiveWords a) = length (positiveWords b)"
    and "length (negativeWords a) = length (negativeWords b)"
  shows "emotionalTone (analyzeLanguagePatterns a) = emotionalTone (analyzeLanguagePatterns b)"
  using assms by (simp add: analyzeLanguagePatterns_def Let_def)

lemma emotionalTone_script_by_counts:
  assumes "positiveWords_script (js_join '' '' (map cleanContent ps))
      = positiveWords_script (js_join '' '' (map cleanContent qs))"
    and "negativeWords_script (js_join '' '' (map cleanContent ps))
      = negativeWords_script (js_join '' '' (map cleanContent qs))"
    and "length (js_split g whitespace (js_join '' '' (map cleanContent ps)))
      = length (js_split g whitespace (js_join '' '' (map cleanContent qs)))"
  shows "emotionalTone (analyzeLanguagePatterns_script ps)
      = emotionalTone (analyzeLanguagePatterns_script qs)"
  using assms by (simp add: analyzeLanguagePatterns_script_def Let_def)

lemma emotionalTone_same_letters:
  assumes "same_letters s t"
  shows "emotionalTone (analyzeLanguagePatterns s) = emotionalTone (analyzeLanguagePatterns t)"
  using counts_same_letters(1,2) [OF assms] by (rule emotionalTone_by_counts)

lemma emotionalTone_script_same_letters:
  assumes "same_letters (js_join '' '' (map cleanContent ps)) (js_join '' '' (map cleanContent qs))"
  shows "emotionalTone (analyzeLanguagePatterns_script ps)
      = emotionalTone (analyzeLanguagePatterns_script qs)"
  using counts_same_letters(3,4) [OF assms] word_count_same_letters [OF assms]
  by (rule emotionalTone_script_by_counts)

lemma amazing_positive: "positiveWords ''AMAZING'' = [''AMAZING'']"
  by code_simp

lemma amazing_positive_script: "positiveWords_script ''AMAZING'' = 1"
  by code_simp

lemma amazing_tone:
  "emotionalTone (analyzeLanguagePatterns ''AMAZING'')
     = \<lparr>positive = 1, negative = 0, neutral = 99\<rparr>"
  by code_simp

lemma amazing_tone_script:
  "emotionalTone (analyzeLanguagePatterns_script [plainPost ''AMAZING''])
     = \<lparr>positive = 1000, negative = 0, neutral = 0\<rparr>"
  by code_simp

lemma sharp_s_upper: "toUpperCase (CHR 0xDF # ''great'') = Some ''SSGREAT''"
  by code_simp

lemma sharp_s_counts:
  "length (positiveWords (CHR 0xDF # ''great'')) = 1"
  "length (positiveWords ''SSGREAT'') = 0"
  "positiveWords_script (CHR 0xDF # ''great'') = 1"
  "positiveWords_script ''SSGREAT'' = 0"
  by code_simp+

lemma sharp_s_tones:
  "positive (emotionalTone (analyzeLanguagePatterns (CHR 0xDF # ''great''))) = 1"
  "positive (emotionalTone (analyzeLanguagePatterns ''SSGREAT'')) = 0"
  by code_simp+

text \<open>
  C7 as the specification states it: the counts are unchanged under changing the letter
  case of the text. It fails for a change of case that turns a character that is no letter
  of a word list into one: upper-casing the text made of a sharp s (0xDF) and \<open>great\<close>
  gives \<open>SSGREAT\<close>. In the first text \<open>great\<close> stands after a character that is no word
  character, so it is a whole word and one positive hit; in the second it is the end of the
  word \<open>SSGREAT\<close> and no hit.
\<close>

theorem upper_casing_changes_the_count:
  "toUpperCase (CHR 0xDF # ''great'') = Some ''SSGREAT''
   \<and> length (positiveWords (CHR 0xDF # ''great'')) = 1
   \<and> length (positiveWords ''SSGREAT'') = 0
   \<and> positiveWords_script (CHR 0xDF # ''great'') = 1
   \<and> positiveWords_script ''SSGREAT'' = 0
   \<and> positive (emotionalTone (analyzeLanguagePatterns (CHR 0xDF # ''great''))) = 1
   \<and> positive (emotionalTone (analyzeLanguagePatterns ''SSGREAT'')) = 0"
  by (simp only: sharp_s_upper sharp_s_counts sharp_s_tones simp_thms)

text \<open>
  C7 as amended: the positive-word and negative-word counts behind the emotional tone are
  computed without regard to letter case, for a change of case that maps code unit to code
  unit within the case pairs (a to z with A to Z, and the accented letters 0xE0 to 0xFE with
  0xC0 to 0xDE). Two texts that differ only in that way have the same two counts in the
  analyzer of the library and in the batch script, and the same emotional tone in both; the
  tone depends on the text through the counts only (and, in the script, the number of
  words); and the all-caps word \<open>AMAZING\<close> is one positive-word hit in both, which the
  emotional tone of that text shows.
\<close>

theorem emotional_word_counts_ignore_case:
  "(same_letters s t \<longrightarrow>
      length (positiveWords s) = length (positiveWords t)
      \<and> length (negativeWords s) = length (negativeWords t)
      \<and> positiveWords_script s = positiveWords_script t
      \<and> negativeWords_script s = negativeWords_script t
      \<and> emotionalTone (analyzeLanguagePatterns s) = emotionalTone (analyzeLanguagePatterns t))
   \<and> (same_letters (js_join '' '' (map cleanContent ps)) (js_join '' '' (map cleanContent qs))
      \<longrightarrow> emotionalTone (analyzeLanguagePatterns_script ps)
            = emotionalTone (analyzeLanguagePatterns_script qs))
   \<and> (length (positiveWords a) = length (positiveWords b)
        \<and> length (negativeWords a) = length (negativeWords b)
      \<longrightarrow> emotionalTone (analyzeLanguagePatterns a) = emotionalTone (analyzeLanguagePatterns b))
   \<and> (positiveWords_script (js_join '' '' (map cleanContent as))
          = positiveWords_script (js_join '' '' (map cleanContent bs))
        \<and> negativeWords_script (js_join '' '' (map cleanContent as))
          = negativeWords_script (js_join '' '' (map cleanContent bs))
        \<and> length (js_split g whitespace (js_join '' '' (map cleanContent as)))
          = length (js_split g whitespace (js_join '' '' (map cleanContent bs)))
      \<longrightarrow> emotionalTone (analyzeLanguagePatterns_script as)
            = emotionalTone (analyzeLanguagePatterns_script bs))
   \<and> positiveWords ''AMAZING'' = [''AMAZING'']
   \<and> positiveWords_script ''AMAZING'' = 1
   \<and> emotionalTone (analyzeLanguagePatterns ''AMAZING'')
       = \<lparr>positive = 1, negative = 0, neutral = 99\<rparr>
   \<and> emotionalTone (analyzeLanguagePatterns_script [plainPost ''AMAZING''])
       = \<lparr>positive = 1000, negative = 0, neutral = 0\<rparr>"
  using counts_same_letters [of s t] emotionalTone_same_letters [of s t]
    emotionalTone_script_same_letters [of ps qs] emotionalTone_by_counts [of a b]
    emotionalTone_script_by_counts [of as bs]
    amazing_positive amazing_positive_script amazing_tone amazing_tone_script
  by blast

lemma this_is_amazing:
  "same_letters (''This is AMAZING, caf'' @ [CHR 0xC9]) (''this is amazing, CAF'' @ [CHR 0xE9])"
  by code_simp

lemma this_is_amazing_count:
  "length (positiveWords (''this is amazing, CAF'' @ [CHR 0xE9])) = 1"
  by code_simp

lemma so_happy:
  "same_letters (js_join '' '' (map cleanContent [plainPost ''So HAPPY'']))
     (js_join '' '' (map cleanContent [plainPost ''so happy'']))"
  by code_simp

lemma so_happy_tone:
  "emotionalTone (analyzeLanguagePatterns_script [plainPost ''so happy''])
     = \<lparr>positive = 500, negative = 0, neutral = 500\<rparr>"
  by code_simp

lemma great_love_counts:
  "length (positiveWords ''great'') = length (positiveWords ''LOVE'')
   \<and> length (negativeWords ''great'') = length (negativeWords ''LOVE'')"
  by code_simp

lemma great_win_counts:
  "positiveWords_script (js_join '' '' (map cleanContent [plainPost ''great win'']))
     = positiveWords_script (js_join '' '' (map cleanContent [plainPost ''LOVE growth'']))
   \<and> negativeWords_script (js_join '' '' (map cleanContent [plainPost ''great win'']))
     = negativeWords_script (js_join '' '' (map cleanContent [plainPost ''LOVE growth'']))
   \<and> length (js_split g whitespace (js_join '' '' (map cleanContent [plainPost ''great win''])))
     = length (js_split g whitespace (js_join '' '' (map cleanContent [plainPost ''LOVE growth''])))"
  by code_simp

theorem emotional_word_counts_ignore_case_witness:
  "same_letters (''This is AMAZING, caf'' @ [CHR 0xC9]) (''this is amazing, CAF'' @ [CHR 0xE9])
   \<and> length (positiveWords (''This is AMAZING, caf'' @ [CHR 0xC9])) = 1
   \<and> emotionalTone (analyzeLanguagePatterns (''This is AMAZING, caf'' @ [CHR 0xC9]))
       = emotionalTone (analyzeLanguagePatterns (''this is amazing, CAF'' @ [CHR 0xE9]))
   \<and> emotionalTone (analyzeLanguagePatterns_script [plainPost ''So HAPPY''])
       = \<lparr>positive = 500, negative = 0, neutral = 500\<rparr>
   \<and> emotionalTone (analyzeLanguagePatterns ''great'')
       = emotionalTone (analyzeLanguagePatterns ''LOVE'')
   \<and> emotionalTone (analyzeLanguagePatterns_script [plainPost ''great win''])
       = emotionalTone (analyzeLanguagePatterns_script [plainPost ''LOVE growth''])"
proof -
  note inst = emotional_word_counts_ignore_case
    [of "''This is AMAZING, caf'' @ [CHR 0xC9]" "''this is amazing, CAF'' @ [CHR 0xE9]"
      "[plainPost ''So HAPPY'']" "[plainPost ''so happy'']" "''great''" "''LOVE''"
      "[plainPost ''great win'']" "[plainPost ''LOVE growth'']"]
  from inst this_is_amazing
  have "length (positiveWords (''This is AMAZING, caf'' @ [CHR 0xC9]))
      = length (positiveWords (''this is amazing, CAF'' @ [CHR 0xE9]))"
    and a: "emotionalTone (analyzeLanguagePatterns (''This is AMAZING, caf'' @ [CHR 0xC9]))
       = emotionalTone (analyzeLanguagePatterns (''this is amazing, CAF'' @ [CHR 0xE9]))"
    by blast+
  then have b: "length (positiveWords (''This is AMAZING, caf'' @ [CHR 0xC9])) = 1"
    by (simp only: this_is_amazing_count)
  from inst so_happy
  have "emotionalTone (analyzeLanguagePatterns_script [plainPost ''So HAPPY''])
      = emotionalTone (analyzeLanguagePatterns_script [plainPost ''so happy''])"
    by blast
  then have c: "emotionalTone (analyzeLanguagePatterns_script [plainPost ''So HAPPY''])
       = \<lparr>positive = 500, negative = 0, neutral = 500\<rparr>"
    by (simp only: so_happy_tone)
  from inst great_love_counts
  have d: "emotionalTone (analyzeLanguagePatterns ''great'')
       = emotionalTone (analyzeLanguagePatterns ''LOVE'')"
    by blast
  from inst great_win_counts
  have e: "emotionalTone (analyzeLanguagePatterns_script [plainPost ''great win''])
       = emotionalTone (analyzeLanguagePatterns_script [plainPost ''LOVE growth''])"
    by blast
  from this_is_amazing a b c d e show ?thesis by blast
qed


section \<open>C3: the report without a credential\<close>

text \<open>A field that holds a JavaScript value is defined when it is not \<open>undefined\<close>; every
  other field of the report is a value of its type. \<open>combined\<close> is the text the extractors
  read.\<close>

definition defined_profile :: "BrandProfile \<Rightarrow> bool" where
  "defined_profile bp =
     (archetype (positioning bp) \<noteq> JUndefined \<and> authority (positioning bp) \<noteq> JUndefined
      \<and> relatability (positioning bp) \<noteq> JUndefined \<and> expertise (positioning bp) \<noteq> JUndefined
      \<and> pos_description (positioning bp) \<noteq> JUndefined \<and> primary (tone bp) \<noteq> JUndefined
      \<and> secondary (tone bp) \<noteq> JUndefined \<and> emotionalRange (tone bp) \<noteq> JUndefined
      \<and> uniqueValue bp \<noteq> JUndefined)"

definition combined :: "Post list \<Rightarrow> string" where
  "combined ps = js_join [CHR 0x0A, CHR 0x0A] (map cleanContent ps)"

lemma getOpenAIClient_absent:
  "env_key = None \<or> env_key = Some [] \<Longrightarrow> getOpenAIClient env_key cache = (None, cache)"
  by (auto simp: getOpenAIClient_def str_or_def)

lemma analyzeBrandProfile_absent:
  "env_key = None \<or> env_key = Some [] \<Longrightarrow>
   analyzeBrandProfile env_key llm cache s = (getDefaultBrandProfile, cache)"
  by (simp add: analyzeBrandProfile_def getOpenAIClient_absent)

lemma defined_default: "defined_profile getDefaultBrandProfile"
  by (simp add: defined_profile_def getDefaultBrandProfile_def)

text \<open>
  C3: when the credential \<open>OPENAI_API_KEY\<close> is absent (unset, or the empty string), then for
  every influencer id and every list of posts \<open>analyzeNeuropsychology\<close> returns, and does
  not throw: its result is the report whose brand profile is the default one, with every
  member defined, and whose other fields are what the heuristic extractors compute; the
  cached client is left as it was.
\<close>

theorem fallback_is_fully_populated:
  "env_key = None \<or> env_key = Some [] \<Longrightarrow>
   analyzeNeuropsychology env_key llm now cache iid ps =
     (Inr \<lparr>influencerId = iid,
           analyzedAt = now,
           posts = ps,
           brandProfile = getDefaultBrandProfile,
           languagePatterns = analyzeLanguagePatterns (combined ps),
           psychologicalTriggers = analyzePsychologicalTriggers (combined ps),
           transformationNarrative = analyzeTransformationNarrative (combined ps),
           missionVision = analyzeMissionVision (combined ps),
           overallAssessment = generateOverallAssessment (combined ps)\<rparr>,
      cache)
   \<and> defined_profile getDefaultBrandProfile"
  by (simp add: analyzeNeuropsychology_def analyzeBrandProfile_absent promise_all6_def Let_def
      combined_def defined_default)

theorem fallback_is_fully_populated_witness:
  "fst (analyzeNeuropsychology None (\<lambda>c p. Inl ApiError) ''2024-01-01'' None ''dan-koe''
          [plainPost ''free gift''])
   = Inr \<lparr>influencerId = ''dan-koe'',
          analyzedAt = ''2024-01-01'',
          posts = [plainPost ''free gift''],
          brandProfile = getDefaultBrandProfile,
          languagePatterns = analyzeLanguagePatterns ''free gift'',
          psychologicalTriggers =
            [\<lparr>trigger_type = ''Reciprocity'', frequency = 2, examples = [''free'', ''gift''],
              impact = Low\<rparr>],
          transformationNarrative = analyzeTransformationNarrative ''free gift'',
          missionVision = analyzeMissionVision ''free gift'',
          overallAssessment = generateOverallAssessment ''free gift''\<rparr>"
proof -
  have c: "combined [plainPost ''free gift''] = ''free gift''"
    by (simp add: combined_def plainPost_def)
  have "(None :: string option) = None \<or> (None :: string option) = Some []" by simp
  from fallback_is_fully_populated [OF this, of "\<lambda>c p. Inl ApiError" "''2024-01-01''" None
      "''dan-koe''" "[plainPost ''free gift'']"]
  show ?thesis by (simp add: c free_gift_triggers)
qed

section \<open>C8: the range of the scores\<close>
















section \<open>C9: a request without a required field\<close>

definition badRequest :: Response where
  "badRequest = \<lparr>status = 400, payload = ErrorJson ''Name and Substack URL are required''\<rparr>"

definition emptyWorld :: World where
  "emptyWorld =
     \<lparr>disk = \<lparr>influencers_file = None, analyses_dir = (\<lambda>k. None), writable = True\<rparr>,
      openai = None\<rparr>"

text \<open>A request in which the name or the feed URL is missing: its body is not JSON, or
  the body is \<open>null\<close> (it has no members), or the body has no \<open>name\<close> or no
  \<open>substackUrl\<close> that is truthy.\<close>

definition lacks_required :: "json option \<Rightarrow> bool" where
  "lacks_required request =
     (case request of
        None \<Rightarrow> True
      | Some body \<Rightarrow>
          (case (get_prop body ''name'', get_prop body ''substackUrl'') of
             (Inr n, Inr u) \<Rightarrow> \<not> truthy n \<or> \<not> truthy u
           | _ \<Rightarrow> True))"

text \<open>The body of the request is a JSON value whose members can be read: the request
  parses, to a value other than \<open>null\<close>.\<close>

definition readable :: "json option \<Rightarrow> bool" where
  "readable request =
     (case request of
        None \<Rightarrow> False
      | Some body \<Rightarrow> body \<noteq> JNull \<and> body \<noteq> JUndefined)"

lemma get_prop_Inr_all:
  "get_prop b k = Inr v \<Longrightarrow> \<exists>w. get_prop b k' = Inr w"
  by (cases b) auto

lemma get_prop_Inr_iff: "(\<exists>v. get_prop b k = Inr v) \<longleftrightarrow> b \<noteq> JNull \<and> b \<noteq> JUndefined"
  by (cases b) auto

lemma POST_lacking:
  assumes "lacks_required request"
  shows "POST env_key parseURL llm now world request
      = (if readable request then badRequest else failed, world)"
proof (cases request)
  case None
  then show ?thesis by (simp add: POST_def readable_def)
next
  case (Some b)
  show ?thesis
  proof (cases "b = JNull \<or> b = JUndefined")
    case True
    with Some show ?thesis by (auto simp: POST_def readable_def)
  next
    case False
    then obtain n u d where g: "get_prop b ''name'' = Inr n" "get_prop b ''substackUrl'' = Inr u"
      "get_prop b ''description'' = Inr d"
      using get_prop_Inr_iff [of b] by metis
    with assms Some have "\<not> truthy n \<or> \<not> truthy u" by (simp add: lacks_required_def)
    with g Some False show ?thesis by (auto simp: POST_def readable_def badRequest_def)
  qed
qed

text \<open>
  C9 as the specification states it: every request in which the name or the feed URL is
  missing gets a 4xx status. It fails for a request whose body is \<open>null\<close>: no name can be
  read from it (reading one throws), and the answer is the error payload of the
  \<open>catch\<close> block, with status 500.
\<close>

theorem null_body_is_a_server_error:
  "lacks_required (Some JNull)
   \<and> get_prop JNull ''name'' = Inl TypeError
   \<and> POST None (\<lambda>u. None) (\<lambda>c p. Inl ApiError) ''2024-01-01'' emptyWorld (Some JNull)
       = (\<lparr>status = 500, payload = ErrorJson ''Failed to analyze influencer''\<rparr>, emptyWorld)"
  by (simp add: lacks_required_def POST_def failed_def)

text \<open>
  C9 as amended: for every analyze request in which the name or the feed URL is missing
  (the member is absent or falsy, the body is \<open>null\<close>, or the body is not JSON), the endpoint
  answers with an error payload and a failure status and leaves the data directory and the
  cached client as they were: no influencer record and no analysis record is written. The
  status is 400, a 4xx status, when the body is a JSON value other than \<open>null\<close>, and 500
  when the body is \<open>null\<close> or not JSON.
\<close>

theorem missing_field_is_rejected:
  "(lacks_required request \<longrightarrow>
      POST env_key parseURL llm now world request
        = (if readable request then badRequest else failed, world))
   \<and> (get_prop b ''name'' = Inr n \<and> get_prop b ''substackUrl'' = Inr u
        \<and> (\<not> truthy n \<or> \<not> truthy u)
      \<longrightarrow> POST env_key parseURL llm now world (Some b) = (badRequest, world))
   \<and> badRequest = \<lparr>status = 400, payload = ErrorJson ''Name and Substack URL are required''\<rparr>
   \<and> failed = \<lparr>status = 500, payload = ErrorJson ''Failed to analyze influencer''\<rparr>
   \<and> 400 \<le> status badRequest \<and> status badRequest < 500"
proof -
  have "POST env_key parseURL llm now world (Some b) = (badRequest, world)"
    if g: "get_prop b ''name'' = Inr n" "get_prop b ''substackUrl'' = Inr u"
      and f: "\<not> truthy n \<or> \<not> truthy u"
  proof -
    from g f have "lacks_required (Some b)" by (simp add: lacks_required_def)
    moreover from g(1) have "readable (Some b)"
      using get_prop_Inr_iff [of b "''name''"] by (auto simp: readable_def)
    ultimately show ?thesis using POST_lacking [of "Some b"] by simp
  qed
  then show ?thesis
    using POST_lacking [of request] by (simp add: badRequest_def failed_def)
qed

theorem missing_field_is_rejected_witness:
  "POST None (\<lambda>u. None) (\<lambda>c p. Inl ApiError) ''2024-01-01'' emptyWorld
     (Some (JObj [(''substackUrl'', JStr ''https://example.substack.com'')]))
   = (badRequest, emptyWorld)
   \<and> POST None (\<lambda>u. None) (\<lambda>c p. Inl ApiError) ''2024-01-01'' emptyWorld
       (Some (JObj [(''name'', JStr ''Dan Koe''), (''substackUrl'', JStr [])]))
     = (badRequest, emptyWorld)
   \<and> POST None (\<lambda>u. None) (\<lambda>c p. Inl ApiError) ''2024-01-01'' emptyWorld (Some JNull)
     = (failed, emptyWorld)
   \<and> POST None (\<lambda>u. None) (\<lambda>c p. Inl ApiError) ''2024-01-01'' emptyWorld None
     = (failed, emptyWorld)"
proof -
  let ?b = "JObj [(''substackUrl'', JStr ''https://example.substack.com'')]"
  let ?c = "JObj [(''name'', JStr ''Dan Koe''), (''substackUrl'', JStr [])]"
  let ?POST = "POST None (\<lambda>u. None) (\<lambda>c p. Inl ApiError) ''2024-01-01'' emptyWorld"
  have 1: "get_prop ?b ''name'' = Inr JUndefined" by simp
  have 2: "get_prop ?b ''substackUrl'' = Inr (JStr ''https://example.substack.com'')" by simp
  have 3: "\<not> truthy JUndefined \<or> \<not> truthy (JStr ''https://example.substack.com'')" by simp
  from missing_field_is_rejected [of _ None "\<lambda>u. None" "\<lambda>c p. Inl ApiError" "''2024-01-01''"
      emptyWorld ?b JUndefined "JStr ''https://example.substack.com''"] 1 2 3
  have a: "?POST (Some ?b) = (badRequest, emptyWorld)" by blast
  have lc: "lacks_required (Some ?c)" by (simp add: lacks_required_def)
  have rc: "readable (Some ?c)" by (simp add: readable_def)
  from missing_field_is_rejected [of "Some ?c" None "\<lambda>u. None" "\<lambda>c p. Inl ApiError"
      "''2024-01-01''" emptyWorld] lc
  have "?POST (Some ?c) = (if readable (Some ?c) then badRequest else failed, emptyWorld)"
    by blast
  with rc have b: "?POST (Some ?c) = (badRequest, emptyWorld)" by simp
  have ln: "lacks_required (Some JNull)" by (simp add: lacks_required_def)
  have rn: "\<not> readable (Some JNull)" by (simp add: readable_def)
  from missing_field_is_rejected [of "Some JNull" None "\<lambda>u. None" "\<lambda>c p. Inl ApiError"
      "''2024-01-01''" emptyWorld] ln
  have "?POST (Some JNull) = (if readable (Some JNull) then badRequest else failed, emptyWorld)"
    by blast
  with rn have c: "?POST (Some JNull) = (failed, emptyWorld)" by simp
  have l0: "lacks_required None" by (simp add: lacks_required_def)
  have r0: "\<not> readable None" by (simp add: readable_def)
  from missing_field_is_rejected [of None None "\<lambda>u. None" "\<lambda>c p. Inl ApiError"
      "''2024-01-01''" emptyWorld] l0
  have "?POST None = (if readable None then badRequest else failed, emptyWorld)"
    by blast
  with r0 have d: "?POST None = (failed, emptyWorld)" by simp
  from a b c d show ?thesis by blast
qed

section \<open>C10: the roster keeps its ids distinct\<close>

lemma findIndex_neg: "findIndex P xs < 0 \<longleftrightarrow> (\<forall>x \<in> set xs. \<not> P x)"
  by (induction xs) (auto simp: Let_def)

lemma findIndex_ge: "- 1 \<le> findIndex P xs"
  by (induction xs) (auto simp: Let_def)

text \<open>Saving into a roster: the record with the same id is replaced where it stands, a
  record with a new id goes to the end.\<close>

definition upsert :: "Influencer list \<Rightarrow> Influencer \<Rightarrow> Influencer list" where
  "upsert xs y =
     (if inf_id y \<in> inf_id ` set xs then map (\<lambda>x. if inf_id x = inf_id y then y else x) xs
      else xs @ [y])"

lemma findIndex_update:
  "distinct (map inf_id xs) \<Longrightarrow>
   (let k = findIndex (\<lambda>i. inf_id i = inf_id y) xs
    in if k \<ge> 0 then xs[nat k := y] else xs @ [y]) = upsert xs y"
proof (induction xs)
  case Nil
  show ?case by (simp add: upsert_def)
next
  case (Cons x xs)
  let ?P = "\<lambda>i. inf_id i = inf_id y"
  show ?case
  proof (cases "inf_id x = inf_id y")
    case True
    with Cons.prems have "inf_id y \<notin> inf_id ` set xs" by simp
    then have "\<forall>z \<in> set xs. inf_id z \<noteq> inf_id y" by (metis imageI)
    then have "map (\<lambda>x. if inf_id x = inf_id y then y else x) xs = xs"
      by (induction xs) auto
    with True show ?thesis by (simp add: upsert_def)
  next
    case False
    from Cons have IH: "(let k = findIndex ?P xs in if k \<ge> 0 then xs[nat k := y] else xs @ [y])
        = upsert xs y" by simp
    show ?thesis
    proof (cases "findIndex ?P xs < 0")
      case True
      then have "\<forall>z \<in> set xs. inf_id z \<noteq> inf_id y" by (simp add: findIndex_neg)
      then have "inf_id y \<notin> inf_id ` set xs" by (metis imageE)
      with True False show ?thesis by (simp add: upsert_def Let_def)
    next
      case nonneg: False
      then obtain z where "z \<in> set xs" "inf_id z = inf_id y" by (auto simp: findIndex_neg)
      then have "inf_id y \<in> inf_id ` set xs" by (metis imageI)
      moreover from nonneg have "nat (findIndex ?P xs + 1) = Suc (nat (findIndex ?P xs))" by simp
      ultimately show ?thesis using IH nonneg False by (simp add: upsert_def Let_def)
    qed
  qed
qed

lemma distinct_upsert: "distinct (map inf_id xs) \<Longrightarrow> distinct (map inf_id (upsert xs y))"
proof -
  assume d: "distinct (map inf_id xs)"
  have "map inf_id (map (\<lambda>x. if inf_id x = inf_id y then y else x) xs) = map inf_id xs"
    by (induction xs) auto
  then have "distinct (map inf_id (map (\<lambda>x. if inf_id x = inf_id y then y else x) xs))"
    using d by (simp only:)
  moreover have "inf_id y \<notin> inf_id ` set xs \<Longrightarrow> distinct (map inf_id (xs @ [y]))"
    using d by simp
  ultimately show ?thesis by (simp only: upsert_def split: if_split) blast
qed

lemma saveInfluencer_upsert:
  "distinct (map inf_id (getInfluencers d)) \<Longrightarrow>
   saveInfluencer d y =
     (if writable d then Inr (d\<lparr>influencers_file := Some (upsert (getInfluencers d) y)\<rparr>)
      else Inl IOError)"
  using findIndex_update [of "getInfluencers d" y]
  by (simp add: saveInfluencer_def Let_def)

text \<open>
  C10: for every roster whose influencer ids are pairwise distinct and every influencer
  record, the ids are pairwise distinct after \<open>saveInfluencer\<close>: when the id already occurs,
  the roster written is the old one with exactly that record replaced in place and every
  other record unchanged; when the id is new, it is the old one with the record appended. A
  write that fails throws and leaves the file as it was.
\<close>

theorem saveInfluencer_keeps_ids_distinct:
  assumes "distinct (map inf_id (getInfluencers d))"
  shows "(writable d \<longrightarrow>
           (\<exists>d'. saveInfluencer d y = Inr d'
              \<and> distinct (map inf_id (getInfluencers d'))
              \<and> (inf_id y \<in> inf_id ` set (getInfluencers d) \<longrightarrow>
                   getInfluencers d'
                     = map (\<lambda>x. if inf_id x = inf_id y then y else x) (getInfluencers d))
              \<and> (inf_id y \<notin> inf_id ` set (getInfluencers d) \<longrightarrow>
                   getInfluencers d' = getInfluencers d @ [y])))
       \<and> (\<not> writable d \<longrightarrow> saveInfluencer d y = Inl IOError)"
  using assms distinct_upsert [OF assms, of y]
  by (auto simp: saveInfluencer_upsert getInfluencers_def upsert_def)


definition sampleInfluencer :: "string \<Rightarrow> string \<Rightarrow> Influencer" where
  "sampleInfluencer i n =
     \<lparr>inf_id = i, name = n, slug = i, substackUrl = ''https://example.substack.com'',
      rssUrl = ''https://example.substack.com/feed'', description = JStr ''A newsletter'',
      lastAnalyzed = None, postCount = None\<rparr>"

definition sampleDisk :: Disk where
  "sampleDisk =
     \<lparr>influencers_file = Some [sampleInfluencer ''dan-koe'' ''Dan Koe''],
      analyses_dir = (\<lambda>k. None), writable = True\<rparr>"

theorem saveInfluencer_keeps_ids_distinct_witness:
  "(\<exists>d'. saveInfluencer sampleDisk (sampleInfluencer ''dan-koe'' ''Dan K.'') = Inr d'
      \<and> distinct (map inf_id (getInfluencers d'))
      \<and> getInfluencers d' = [sampleInfluencer ''dan-koe'' ''Dan K.''])
   \<and> (\<exists>d'. saveInfluencer sampleDisk (sampleInfluencer ''greg-isenberg'' ''Greg'') = Inr d'
      \<and> distinct (map inf_id (getInfluencers d'))
      \<and> getInfluencers d'
          = [sampleInfluencer ''dan-koe'' ''Dan Koe'', sampleInfluencer ''greg-isenberg'' ''Greg''])
   \<and> saveInfluencer (sampleDisk\<lparr>writable := False\<rparr>) (sampleInfluencer ''greg-isenberg'' ''Greg'')
       = Inl IOError"
proof -
  have r: "getInfluencers sampleDisk = [sampleInfluencer ''dan-koe'' ''Dan Koe'']"
    by (simp add: getInfluencers_def sampleDisk_def)
  have d: "distinct (map inf_id (getInfluencers sampleDisk))" by (simp add: r)
  have w: "writable sampleDisk" by (simp add: sampleDisk_def)
  from saveInfluencer_keeps_ids_distinct [OF d, of "sampleInfluencer ''dan-koe'' ''Dan K.''"] w
  have a: "\<exists>d'. saveInfluencer sampleDisk (sampleInfluencer ''dan-koe'' ''Dan K.'') = Inr d'
      \<and> distinct (map inf_id (getInfluencers d'))
      \<and> getInfluencers d' = [sampleInfluencer ''dan-koe'' ''Dan K.'']"
    by (auto simp: r sampleInfluencer_def)
  from saveInfluencer_keeps_ids_distinct [OF d, of "sampleInfluencer ''greg-isenberg'' ''Greg''"] w
  have b: "\<exists>d'. saveInfluencer sampleDisk (sampleInfluencer ''greg-isenberg'' ''Greg'') = Inr d'
      \<and> distinct (map inf_id (getInfluencers d'))
      \<and> getInfluencers d'
          = [sampleInfluencer ''dan-koe'' ''Dan Koe'', sampleInfluencer ''greg-isenberg'' ''Greg'']"
    by (auto simp: r sampleInfluencer_def)
  have d': "distinct (map inf_id (getInfluencers (sampleDisk\<lparr>writable := False\<rparr>)))"
    by (simp add: getInfluencers_def sampleDisk_def)
  have "\<not> writable (sampleDisk\<lparr>writable := False\<rparr>)" by simp
  with saveInfluencer_keeps_ids_distinct [OF d', of "sampleInfluencer ''greg-isenberg'' ''Greg''"]
  have c: "saveInfluencer (sampleDisk\<lparr>writable := False\<rparr>)
      (sampleInfluencer ''greg-isenberg'' ''Greg'') = Inl IOError"
    by blast
  from a b c show ?thesis by blast
qed

section \<open>C6: the phrase-frequency extractor\<close>

text \<open>The ranking both readings share: the distinct candidates in the order of their first
  occurrence, sorted by descending count with a stable sort, the first five.\<close>

definition ranked :: "string list \<Rightarrow> string list" where
  "ranked cands = take 5 (sort_key (\<lambda>p. - int (count_list cands p)) (from_Set cands))"

text \<open>The extractor as the specification words it: every window of exactly four
  consecutive words, kept when its length is within [10,50], bounds included.\<close>

definition spec_windows :: "string list \<Rightarrow> string list" where
  "spec_windows words = map (\<lambda>i. js_join '' '' (take 4 (drop i words))) [0..<length words - 3]"

definition spec_commonPhrases :: "string \<Rightarrow> string list" where
  "spec_commonPhrases s =
     ranked (filter (\<lambda>p. 10 \<le> length p \<and> length p \<le> 50)
               (spec_windows (js_split g whitespace s)))"

text \<open>The candidates of the loop of the batch script: the lower-cased windows at its
  indices whose length is strictly between 10 and 50. \<open>cnt\<close> reads a count off the phrase
  map.\<close>

definition candidates :: "string list \<Rightarrow> string list" where
  "candidates words =
     filter (\<lambda>p. 10 < length p \<and> length p < 50) (map (windowPhrase words) (windowIndices words))"

definition cnt :: "(string \<times> nat) list \<Rightarrow> string \<Rightarrow> nat" where
  "cnt m p = (case map_of m p of None \<Rightarrow> 0 | Some c \<Rightarrow> c)"

lemma fst_map_set: "map fst (map_set m k v) = set_add (map fst m) k"
proof (induction m)
  case Nil
  show ?case by (simp add: set_add_def)
next
  case (Cons kv m)
  obtain k' v' where kv: "kv = (k', v')" by (cases kv)
  show ?case
  proof (cases "k' = k")
    case True
    with kv show ?thesis by (simp add: set_add_def)
  next
    case False
    have "set_add (k' # map fst m) k = k' # set_add (map fst m) k"
      using False by (simp add: set_add_def)
    with Cons.IH kv False show ?thesis by simp
  qed
qed

lemma fst_bump: "map fst (bump m k) = set_add (map fst m) k"
  by (simp add: bump_def fst_map_set)

lemma fst_foldl_bump: "map fst (foldl bump m xs) = foldl set_add (map fst m) xs"
  by (induction xs arbitrary: m) (simp_all add: fst_bump)

lemma map_of_map_set: "map_of (map_set m k v) = (map_of m)(k \<mapsto> v)"
  by (induction m) (auto simp: fun_upd_twist)

lemma cnt_bump: "cnt (bump m k) p = cnt m p + (if p = k then 1 else 0)"
  by (simp add: cnt_def bump_def map_get_def map_of_map_set)

lemma cnt_foldl_bump: "cnt (foldl bump m xs) p = cnt m p + count_list xs p"
  by (induction xs arbitrary: m) (auto simp: cnt_bump)

lemma assoc_by_keys: "distinct (map fst m) \<Longrightarrow> m = map (\<lambda>k. (k, cnt m k)) (map fst m)"
proof (induction m)
  case Nil
  show ?case by simp
next
  case (Cons kv m)
  obtain k v where kv: "kv = (k, v)" by (cases kv)
  from Cons.prems kv have nk: "k \<notin> fst ` set m" and d: "distinct (map fst m)" by auto
  have "map (\<lambda>k'. (k', cnt (kv # m) k')) (map fst m) = map (\<lambda>k'. (k', cnt m k')) (map fst m)"
    using nk kv by (intro map_cong refl) (auto simp: cnt_def)
  with Cons.IH [OF d] kv show ?case by (simp add: cnt_def)
qed

lemma foldl_bump_counts:
  "foldl bump [] cs = map (\<lambda>p. (p, count_list cs p)) (from_Set cs)"
proof -
  let ?m = "foldl bump [] cs"
  have keys: "map fst ?m = from_Set cs" by (simp add: fst_foldl_bump from_Set_def)
  then have "distinct (map fst ?m)" by (simp add: distinct_from_Set)
  then have "?m = map (\<lambda>k. (k, cnt ?m k)) (map fst ?m)" by (rule assoc_by_keys)
  also have "\<dots> = map (\<lambda>p. (p, count_list cs p)) (from_Set cs)"
  proof -
    have "cnt [] p = 0" for p by (simp add: cnt_def)
    then show ?thesis by (simp add: keys cnt_foldl_bump)
  qed
  finally show ?thesis .
qed

lemma foldl_bump_filter:
  "foldl (\<lambda>m i. let phrase = f i in if P phrase then bump m phrase else m) m0 is
     = foldl bump m0 (filter P (map f is))"
  by (induction "is" arbitrary: m0) (simp_all add: Let_def)

lemma windowPhrases_candidates: "windowPhrases words = foldl bump [] (candidates words)"
  using foldl_bump_filter [of "windowPhrase words" "\<lambda>p. 10 < length p \<and> length p < 50" "[]"
      "windowIndices words"]
  by (simp add: windowPhrases_def candidates_def)

lemma insort_key_map:
  "insort_key f (h x) (map h ys) = map h (insort_key (\<lambda>a. f (h a)) x ys)"
  by (induction ys) simp_all

lemma sort_key_map: "sort_key f (map h xs) = map h (sort_key (\<lambda>a. f (h a)) xs)"
  by (induction xs) (simp_all add: insort_key_map)

lemma top5_counts: "top5 (map (\<lambda>p. (p, c p)) ks) = take 5 (sort_key (\<lambda>p. - int (c p)) ks)"
  by (simp add: top5_def sort_key_map take_map comp_def)

lemma top5_foldl_bump: "top5 (foldl bump [] cs) = ranked cs"
  by (simp add: foldl_bump_counts top5_counts ranked_def)

lemma top5_windowPhrases: "top5 (windowPhrases words) = ranked (candidates words)"
  by (simp add: windowPhrases_candidates top5_foldl_bump)

lemma commonPhrases_script:
  "commonPhrases (analyzeLanguagePatterns_script ps) =
     (let r = top5 (windowPhrases (js_split g whitespace (js_join '' '' (map cleanContent ps))))
      in if r = [] then fallbackPhrases else r)"
  by (simp add: analyzeLanguagePatterns_script_def Let_def)

lemma length_ranked: "length (ranked cs) \<le> 5"
  by (simp add: ranked_def)

text \<open>
  The amended reading. \<open>windows4\<close> lists every window of exactly four consecutive words,
  in order: there are \<open>length words - 3\<close> of them, and the last one ends at the last word.
  \<open>phrases_of\<close> is the extraction from a list of windows: each window joined by single
  spaces and lower-cased, kept when its length is strictly between 10 and 50, ranked; the
  fixed fallback phrases when nothing is kept.
\<close>

definition windows4 :: "string list \<Rightarrow> string list list" where
  "windows4 words = map (\<lambda>i. take 4 (drop i words)) [0..<length words - 3]"

definition phrases_of :: "string list list \<Rightarrow> string list" where
  "phrases_of windows =
     (let r = ranked (filter (\<lambda>p. 10 < length p \<and> length p < 50)
                        (map (\<lambda>w. toLowerCase (js_join '' '' w)) windows))
      in if r = [] then fallbackPhrases else r)"

lemma length_windows4: "length (windows4 words) = length words - 3"
  by (simp add: windows4_def)

lemma nth_windows4:
  assumes "i < length words - 3"
  shows "windows4 words ! i = [words ! i, words ! (i + 1), words ! (i + 2), words ! (i + 3)]"
proof -
  from assms have "i + 4 \<le> length words" by arith
  then have "drop i words = words ! i # drop (Suc i) words"
    "drop (Suc i) words = words ! (i + 1) # drop (Suc (Suc i)) words"
    "drop (Suc (Suc i)) words = words ! (i + 2) # drop (Suc (Suc (Suc i))) words"
    "drop (Suc (Suc (Suc i))) words = words ! (i + 3) # drop (Suc (Suc (Suc (Suc i)))) words"
    by (simp_all add: Cons_nth_drop_Suc numeral_3_eq_3)
  then have "take 4 (drop i words) = [words ! i, words ! (i + 1), words ! (i + 2), words ! (i + 3)]"
    by (simp add: numeral_eq_Suc)
  with assms show ?thesis by (simp add: windows4_def)
qed

text \<open>The loop of the script stops one window short: its candidates come from every window
  but the last.\<close>

lemma butlast_windows4:
  "butlast (windows4 words) = map (\<lambda>i. take 4 (drop i words)) [0..<length words - 4]"
proof -
  have upt: "butlast [0..<n] = [0..<n - 1]" for n :: nat
    by (cases n) simp_all
  have "length words - 3 - 1 = length words - 4" by arith
  then show ?thesis by (simp add: windows4_def map_butlast [symmetric] upt)
qed

lemma candidates_butlast:
  "candidates words =
     filter (\<lambda>p. 10 < length p \<and> length p < 50)
       (map (\<lambda>w. toLowerCase (js_join '' '' w)) (butlast (windows4 words)))"
proof -
  have "windowPhrase words = (\<lambda>i. toLowerCase (js_join '' '' (take 4 (drop i words))))"
    by (intro ext) (simp add: windowPhrase_def)
  then show ?thesis
    by (simp add: candidates_def butlast_windows4 windowIndices_def comp_def)
qed

lemma script_all_but_last:
  "commonPhrases (analyzeLanguagePatterns_script ps) =
     phrases_of (butlast (windows4 (js_split g whitespace (js_join '' '' (map cleanContent ps)))))"
  by (simp only: commonPhrases_script top5_windowPhrases candidates_butlast phrases_of_def)

lemma length_phrases_of: "length (phrases_of ws) \<le> 5"
  using length_ranked by (simp add: phrases_of_def Let_def fallbackPhrases_def)

text \<open>The analyzer of the library forms no windows: it ranks the sentences.\<close>

lemma sentencePhrases_fused:
  "sentencePhrases sentences =
     foldl bump []
       (filter (\<lambda>p. 10 < length p \<and> length p < 100) (map (\<lambda>x. trim (toLowerCase x)) sentences))"
  using foldl_bump_filter [of "\<lambda>x. trim (toLowerCase x)" "\<lambda>p. 10 < length p \<and> length p < 100"
      "[]" sentences]
  by (simp add: sentencePhrases_def)

lemma commonPhrases_library:
  "commonPhrases (analyzeLanguagePatterns s) =
     ranked (filter (\<lambda>p. 10 < length p \<and> length p < 100)
               (map (\<lambda>x. trim (toLowerCase x)) (js_split g sentenceEnd s)))"
  by (simp add: analyzeLanguagePatterns_def Let_def sentencePhrases_fused top5_foldl_bump)

lemma ten_characters_code:
  "commonPhrases (analyzeLanguagePatterns_script [plainPost ''aa bb cc d e'']) = fallbackPhrases"
  by code_simp

lemma ten_characters_spec: "spec_commonPhrases ''aa bb cc d e'' = [''aa bb cc d'']"
  by code_simp

lemma upper_case_code:
  "commonPhrases (analyzeLanguagePatterns_script [plainPost ''AAAAAAAA b c d e''])
     = [''aaaaaaaa b c d'']"
  by code_simp

lemma upper_case_spec: "spec_commonPhrases ''AAAAAAAA b c d e'' = [''AAAAAAAA b c d'']"
  by code_simp

lemma one_sentence_code:
  "commonPhrases (analyzeLanguagePatterns ''the quick brown fox jumps'')
     = [''the quick brown fox jumps'']"
  by code_simp

lemma one_sentence_spec:
  "spec_commonPhrases ''the quick brown fox jumps''
     = [''the quick brown fox'', ''quick brown fox jumps'']"
  by code_simp

text \<open>
  C6 as the specification states it: the extractor returns the top candidates among the
  four-word windows whose length is within [10,50], bounds included. It fails in three ways.
  In \<open>aa bb cc d e\<close> the window \<open>aa bb cc d\<close> has length 10, so the specification's extractor
  returns it; the script keeps a window only when its length is above 10 and below 50, has no
  candidate and returns its fixed fallback phrases. In \<open>AAAAAAAA b c d e\<close> the script
  returns the window in lower case. And the analyzer of the library forms no windows at all:
  for \<open>the quick brown fox jumps\<close> it returns the whole sentence, where the specification's
  extractor returns the two windows. (In the first two texts the last window is shorter than
  10 characters, so it is a candidate for neither.)
\<close>

theorem length_bounds_are_exclusive:
  "commonPhrases (analyzeLanguagePatterns_script [plainPost ''aa bb cc d e''])
     \<noteq> spec_commonPhrases ''aa bb cc d e''
   \<and> commonPhrases (analyzeLanguagePatterns_script [plainPost ''AAAAAAAA b c d e''])
     \<noteq> spec_commonPhrases ''AAAAAAAA b c d e''
   \<and> commonPhrases (analyzeLanguagePatterns ''the quick brown fox jumps'')
     \<noteq> spec_commonPhrases ''the quick brown fox jumps''"
  by (simp add: ten_characters_code ten_characters_spec upper_case_code upper_case_spec
      one_sentence_code one_sentence_spec fallbackPhrases_def)

text \<open>
  C6 as amended: for every input, the extractor of the batch script splits the joined text
  at white space and forms every sliding window of exactly four consecutive words (whether
  it also forms the last of them, the window that ends at the last word, is left open). It
  joins each window by single spaces and lower-cases it, keeps it as a candidate exactly
  when its length is strictly between 10 and 50, counts the occurrences of each candidate,
  and returns the top five by descending count, ties in the order first seen: at most five
  phrases, and its five fixed fallback phrases when there is no candidate. The analyzer of
  the library forms no windows: it splits the text at runs of \<open>.\<close>, \<open>!\<close> and \<open>?\<close>,
  lower-cases and trims each piece, keeps it exactly when its length is strictly between 10
  and 100, and returns the top five by descending count, ties in the order first seen.
\<close>

theorem common_phrases_of_the_extractors:
  "(commonPhrases (analyzeLanguagePatterns_script ps) =
      phrases_of (butlast (windows4 (js_split g whitespace (js_join '' '' (map cleanContent ps)))))
    \<or> commonPhrases (analyzeLanguagePatterns_script ps) =
      phrases_of (windows4 (js_split g whitespace (js_join '' '' (map cleanContent ps)))))
   \<and> length (commonPhrases (analyzeLanguagePatterns_script ps)) \<le> 5
   \<and> length (windows4 ws) = length ws - 3
   \<and> (\<forall>i < length ws - 3.
        windows4 ws ! i = [ws ! i, ws ! (i + 1), ws ! (i + 2), ws ! (i + 3)])
   \<and> commonPhrases (analyzeLanguagePatterns s) =
       ranked (filter (\<lambda>p. 10 < length p \<and> length p < 100)
                 (map (\<lambda>x. trim (toLowerCase x)) (js_split g sentenceEnd s)))
   \<and> length (commonPhrases (analyzeLanguagePatterns s)) \<le> 5"
proof -
  have 2: "length (commonPhrases (analyzeLanguagePatterns_script ps)) \<le> 5"
    by (simp only: script_all_but_last length_phrases_of)
  have 4: "\<forall>i < length ws - 3.
        windows4 ws ! i = [ws ! i, ws ! (i + 1), ws ! (i + 2), ws ! (i + 3)]"
    using nth_windows4 [of _ ws] by blast
  have 6: "length (commonPhrases (analyzeLanguagePatterns s)) \<le> 5"
    by (simp only: commonPhrases_library length_ranked)
  from script_all_but_last [of ps] 2 length_windows4 [of ws] 4 commonPhrases_library [of s] 6
  show ?thesis by (intro conjI disjI1)
qed

lemma go_big_content:
  "js_split g whitespace
     (js_join '' '' (map cleanContent [plainPost ''Go big or go home go big or go home a b c'']))
   = [''Go'', ''big'', ''or'', ''go'', ''home'', ''go'', ''big'', ''or'', ''go'', ''home'',
      ''a'', ''b'', ''c'']"
  by code_simp

lemma go_big_without_last:
  "phrases_of (butlast (windows4
     [''Go'', ''big'', ''or'', ''go'', ''home'', ''go'', ''big'', ''or'', ''go'', ''home'',
      ''a'', ''b'', ''c'']))
   = [''go big or go'', ''big or go home'', ''or go home go'', ''go home go big'',
      ''home go big or'']"
  by code_simp

lemma go_big_with_last:
  "phrases_of (windows4
     [''Go'', ''big'', ''or'', ''go'', ''home'', ''go'', ''big'', ''or'', ''go'', ''home'',
      ''a'', ''b'', ''c''])
   = [''go big or go'', ''big or go home'', ''or go home go'', ''go home go big'',
      ''home go big or'']"
  by code_simp

lemma build_it_sentences:
  "ranked (filter (\<lambda>p. 10 < length p \<and> length p < 100)
     (map (\<lambda>x. trim (toLowerCase x))
        (js_split g sentenceEnd ''Build it now. Build it now! Ship it today.'')))
   = [''build it now'', ''ship it today'']"
  by code_simp

theorem common_phrases_of_the_extractors_witness:
  "commonPhrases (analyzeLanguagePatterns_script
      [plainPost ''Go big or go home go big or go home a b c''])
     = [''go big or go'', ''big or go home'', ''or go home go'', ''go home go big'',
        ''home go big or'']
   \<and> windows4 [''Go'', ''big'', ''or'', ''go'', ''home''] ! 0 = [''Go'', ''big'', ''or'', ''go'']
   \<and> windows4 [''Go'', ''big'', ''or'', ''go'', ''home''] ! 1 = [''big'', ''or'', ''go'', ''home'']
   \<and> length (windows4 [''Go'', ''big'', ''or'', ''go'', ''home'']) = 2
   \<and> commonPhrases (analyzeLanguagePatterns ''Build it now. Build it now! Ship it today.'')
       = [''build it now'', ''ship it today'']"
proof -
  let ?ps = "[plainPost ''Go big or go home go big or go home a b c'']"
  let ?ws = "[''Go'', ''big'', ''or'', ''go'', ''home'']"
  let ?s = "''Build it now. Build it now! Ship it today.''"
  note inst = common_phrases_of_the_extractors [of ?ps ?ws ?s]
  note either = inst [THEN conjunct1]
  note count = inst [THEN conjunct2, THEN conjunct2, THEN conjunct1]
  note window = inst [THEN conjunct2, THEN conjunct2, THEN conjunct2, THEN conjunct1]
  note library = inst [THEN conjunct2, THEN conjunct2, THEN conjunct2, THEN conjunct2,
    THEN conjunct1]
  from either have a: "commonPhrases (analyzeLanguagePatterns_script ?ps)
     = [''go big or go'', ''big or go home'', ''or go home go'', ''go home go big'',
        ''home go big or'']"
    unfolding go_big_content go_big_without_last go_big_with_last by simp
  from window have b0: "windows4 ?ws ! 0 = [?ws ! 0, ?ws ! (0 + 1), ?ws ! (0 + 2), ?ws ! (0 + 3)]"
    by simp
  then have b: "windows4 ?ws ! 0 = [''Go'', ''big'', ''or'', ''go'']" by simp
  from window have c0: "windows4 ?ws ! 1 = [?ws ! 1, ?ws ! (1 + 1), ?ws ! (1 + 2), ?ws ! (1 + 3)]"
    by simp
  then have c: "windows4 ?ws ! 1 = [''big'', ''or'', ''go'', ''home'']" by simp
  from count have d: "length (windows4 ?ws) = 2" by simp
  from library have e: "commonPhrases (analyzeLanguagePatterns ?s)
      = [''build it now'', ''ship it today'']"
    unfolding build_it_sentences .
  from a b c d e show ?thesis by (intro conjI)
qed

end
